theory Spec2Isabelle
  imports Complex_Main
begin

section \<open>The LED banner of \<^verbatim>\<open>led-banner.js\<close>\<close>

text \<open>
  The class \<^verbatim>\<open>PremiumLEDDisplay\<close> keeps a text bitmap, a scroll offset, a colour index
  and a grid of LED states; each animation frame advances the offset and recomputes the
  grid. The model keeps these fields and the methods that change them. The number fields
  are reals and the panel dimensions natural numbers, as the loops over them assume; the
  tick, whose sum is rounded to an IEEE double by the code, is also given in double
  arithmetic (\<open>updateScrollPosition_js\<close>). The three.js scene
  (camera, lights, meshes and their materials) belongs to the renderer: of the
  \<^verbatim>\<open>leds\<close> array only its length is kept, since \<^verbatim>\<open>updateLEDs\<close> tests it.
\<close>

subsection \<open>Arrays and exceptions\<close>

datatype error = IndexSizeError | TypeError

text \<open>
  A method either returns with the updated object or throws; the object as it is when the
  exception leaves the method is kept with the error, since a throw undoes nothing.
\<close>

type_synonym 'a result = "(error \<times> 'a) + 'a"

definition returned :: "'a result \<Rightarrow> 'a option" where
  "returned r = (case r of Inl e \<Rightarrow> None | Inr s \<Rightarrow> Some s)"

text \<open>
  A bitmap or grid cell holds \<^verbatim>\<open>true\<close>, \<^verbatim>\<open>false\<close> or \<^verbatim>\<open>undefined\<close>
  (\<open>None\<close>): reading an array beyond its end yields \<^verbatim>\<open>undefined\<close>, and writing
  beyond its end extends it with holes.
\<close>

type_synonym cell = "bool option"

definition js_read :: "cell list \<Rightarrow> nat \<Rightarrow> cell" where
  "js_read row i = (if i < length row then row ! i else None)"

definition js_write :: "cell list \<Rightarrow> nat \<Rightarrow> cell \<Rightarrow> cell list" where
  "js_write row i v =
     (if i < length row then row[i := v]
      else row @ replicate (i - length row) None @ [v])"

fun for_each :: "nat list \<Rightarrow> (nat \<Rightarrow> 's \<Rightarrow> 's result) \<Rightarrow> 's \<Rightarrow> 's result" where
  "for_each [] body s = Inr s"
| "for_each (i # rest) body s =
     (case body i s of Inl e \<Rightarrow> Inl e | Inr s' \<Rightarrow> for_each rest body s')"

subsection \<open>Configuration and object state\<close>

record options =
  container :: nat
  banner_text :: string
  panelWidth :: nat
  panelHeight :: nat
  ledSize :: real
  spacing :: real
  offColor :: nat
  scrollSpeed :: real

record display =
  options :: options
  leds :: nat
  ledStates :: "cell list list"
  textBitmap :: "cell list list option"
  scrollOffset :: real
  currentColorIndex :: nat

definition colorSequence :: "nat list" where
  "colorSequence = [0xFF0000, 0x00FF00, 0x0000FF]"

subsection \<open>The options object and its defaults\<close>

text \<open>
  A property of the \<^verbatim>\<open>options\<close> argument is absent (reading it gives
  \<^verbatim>\<open>undefined\<close>), or holds one of the falsy values \<^verbatim>\<open>undefined\<close>,
  \<^verbatim>\<open>null\<close>, \<^verbatim>\<open>false\<close>, \<^verbatim>\<open>0\<close>, \<^verbatim>\<open>NaN\<close> and
  \<^verbatim>\<open>""\<close>, or holds a value of the type the class uses the option at
  (\<open>Given\<close>: a string for the text, a number for the sizes; it may itself be 0 or
  empty). Truthy values of another type are outside the model.
  \<^verbatim>\<open>a || b\<close> is \<^verbatim>\<open>a\<close> when \<^verbatim>\<open>a\<close> is truthy and \<^verbatim>\<open>b\<close> otherwise.
\<close>

datatype 'a jsarg = Absent | Undefined | Null | JFalse | JZero | JNaN | JEmpty | Given 'a

record ctor_options =
  arg_container :: "nat jsarg"
  arg_text :: "string jsarg"
  arg_panelWidth :: "nat jsarg"
  arg_panelHeight :: "nat jsarg"
  arg_ledSize :: "real jsarg"
  arg_spacing :: "real jsarg"
  arg_offColor :: "nat jsarg"
  arg_scrollSpeed :: "real jsarg"

definition truthy :: "('a \<Rightarrow> bool) \<Rightarrow> 'a jsarg \<Rightarrow> bool" where
  "truthy nonzero a = (case a of Given v \<Rightarrow> nonzero v | _ \<Rightarrow> False)"

definition js_or :: "('a \<Rightarrow> bool) \<Rightarrow> 'a jsarg \<Rightarrow> 'a \<Rightarrow> 'a" where
  "js_or nonzero a d = (case a of Given v \<Rightarrow> if nonzero v then v else d | _ \<Rightarrow> d)"

definition truthy_object :: "nat \<Rightarrow> bool" where
  "truthy_object el = True"

definition truthy_string :: "string \<Rightarrow> bool" where
  "truthy_string t = (t \<noteq> [])"

definition truthy_nat :: "nat \<Rightarrow> bool" where
  "truthy_nat n = (n \<noteq> 0)"

definition truthy_real :: "real \<Rightarrow> bool" where
  "truthy_real r = (r \<noteq> 0)"

definition default_options :: "nat \<Rightarrow> ctor_options \<Rightarrow> options" where
  "default_options document_body a =
     \<lparr> container = js_or truthy_object (arg_container a) document_body,
       banner_text = js_or truthy_string (arg_text a) ''WELCOME TO MY WEBSITE'',
       panelWidth = js_or truthy_nat (arg_panelWidth a) 80,
       panelHeight = js_or truthy_nat (arg_panelHeight a) 10,
       ledSize = js_or truthy_real (arg_ledSize a) (85 / 100),
       spacing = js_or truthy_real (arg_spacing a) (12 / 10),
       offColor = js_or truthy_nat (arg_offColor a) 0x100000,
       scrollSpeed = js_or truthy_real (arg_scrollSpeed a) (4 / 10) \<rparr>"

subsection \<open>Rasterizing the text\<close>

text \<open>
  The 2D canvas draws the glyphs; it is a parameter \<open>draw text w h\<close> giving the RGBA
  bytes of the \<open>w\<close> by \<open>h\<close> canvas after \<^verbatim>\<open>fillText\<close>. \<^verbatim>\<open>getImageData\<close> throws
  an \<^verbatim>\<open>IndexSizeError\<close> for a rectangle of width or height zero (HTML standard).
  Assigning \<^verbatim>\<open>canvas.width\<close> truncates the number to an integer; the canvas is
  taken without the size limits of a browser.
\<close>

type_synonym canvas = "string \<Rightarrow> nat \<Rightarrow> nat \<Rightarrow> nat list"

definition fontSize :: nat where
  "fontSize = 32"

definition canvas_width :: "string \<Rightarrow> nat" where
  "canvas_width t = nat \<lfloor>real (length t) * real fontSize * (8 / 10)\<rfloor>"

definition canvas_height :: nat where
  "canvas_height = fontSize * 2"

definition getImageData :: "canvas \<Rightarrow> string \<Rightarrow> nat \<Rightarrow> nat \<Rightarrow> error + nat list" where
  "getImageData draw t w h =
     (if w = 0 \<or> h = 0 then Inl IndexSizeError else Inr (draw t w h))"

text \<open>\<^verbatim>\<open>data[pixelIndex] > 128\<close>; the comparison is false beyond the end of the data.\<close>

definition bright :: "nat list \<Rightarrow> nat \<Rightarrow> bool" where
  "bright data i = (i < length data \<and> 128 < data ! i)"

definition thresholdBitmap :: "nat list \<Rightarrow> nat \<Rightarrow> nat \<Rightarrow> cell list list" where
  "thresholdBitmap data w h =
     map (\<lambda>y. map (\<lambda>x. Some (bright data ((y * w + x) * 4))) [0..<w]) [0..<h]"

definition srcRow :: "nat \<Rightarrow> nat \<Rightarrow> nat \<Rightarrow> nat" where
  "srcRow target h y =
     (let scaleFactor = real target / real h
      in nat (min \<lfloor>real y / scaleFactor\<rfloor> (int h - 1)))"

definition resizeBitmap :: "cell list list \<Rightarrow> nat \<Rightarrow> cell list list" where
  "resizeBitmap bm target =
     (if target < length bm
      then map (\<lambda>y. map (\<lambda>x. js_read (bm ! srcRow target (length bm) y) x)
                         [0..<length (bm ! 0)])
               [0..<target]
      else bm)"

definition rasterize :: "canvas \<Rightarrow> string \<Rightarrow> nat \<Rightarrow> cell list list" where
  "rasterize draw t target =
     resizeBitmap
       (thresholdBitmap (draw t (canvas_width t) canvas_height) (canvas_width t) canvas_height)
       target"

definition createTextBitmap :: "canvas \<Rightarrow> display \<Rightarrow> display result" where
  "createTextBitmap draw s =
     (let t = banner_text (options s); w = canvas_width t; h = canvas_height
      in case getImageData draw t w h of
           Inl e \<Rightarrow> Inl (e, s)
         | Inr data \<Rightarrow>
             Inr (s\<lparr>textBitmap :=
                      Some (resizeBitmap (thresholdBitmap data w h) (panelHeight (options s)))\<rparr>))"

definition bitmapWidth :: "cell list list \<Rightarrow> nat" where
  "bitmapWidth bm = (case bm of [] \<Rightarrow> 0 | row # _ \<Rightarrow> length row)"

subsection \<open>The LED grid\<close>

definition createLEDs :: "display \<Rightarrow> display" where
  "createLEDs s =
     s\<lparr>ledStates := replicate (panelHeight (options s))
                      (replicate (panelWidth (options s)) (Some False)),
       leds := panelHeight (options s) * panelWidth (options s)\<rparr>"

definition isOn :: "cell list list option \<Rightarrow> real \<Rightarrow> nat \<Rightarrow> nat \<Rightarrow> cell" where
  "isOn bitmap offset y x =
     (let bitmapX = int x + \<lfloor>offset\<rfloor>
      in case bitmap of
           None \<Rightarrow> Some False
         | Some bm \<Rightarrow>
             if y < length bm \<and> 0 \<le> bitmapX \<and> bitmapX < int (length (bm ! 0))
             then js_read (bm ! y) (nat bitmapX)
             else Some False)"

definition setLED :: "nat \<Rightarrow> nat \<Rightarrow> nat \<Rightarrow> display \<Rightarrow> display result" where
  "setLED width y x s =
     (let on = isOn (textBitmap s) (scrollOffset s) y x;
          ledIndex = y * width + x
      in if ledIndex < leds s
         then (if y < length (ledStates s)
               then Inr (s\<lparr>ledStates := (ledStates s)[y := js_write (ledStates s ! y) x on]\<rparr>)
               else Inl (TypeError, s))
         else Inr s)"

definition updateLEDs :: "display \<Rightarrow> display result" where
  "updateLEDs s =
     (let width = panelWidth (options s); height = panelHeight (options s)
      in for_each [0..<height] (\<lambda>y. for_each [0..<width] (setLED width y)) s)"

subsection \<open>Scrolling and colour cycling\<close>

definition updateScrollPosition :: "display \<Rightarrow> display" where
  "updateScrollPosition s =
     (case textBitmap s of
        None \<Rightarrow> s
      | Some bm \<Rightarrow>
          if length bm = 0 then s
          else
            let textWidth = length (bm ! 0);
                s1 = s\<lparr>scrollOffset := scrollOffset s + scrollSpeed (options s)\<rparr>
            in if real textWidth + real (panelWidth (options s1)) \<le> scrollOffset s1
               then s1\<lparr>scrollOffset := - real (panelWidth (options s1)),
                       currentColorIndex :=
                         (currentColorIndex s1 + 1) mod length colorSequence\<rparr>
               else s1)"

definition animate :: "display \<Rightarrow> display result" where
  "animate s = updateLEDs (updateScrollPosition s)"

definition setText :: "canvas \<Rightarrow> string \<Rightarrow> display \<Rightarrow> display result" where
  "setText draw t s =
     createTextBitmap draw
       (s\<lparr>options := (options s)\<lparr>banner_text := t\<rparr>,
          scrollOffset := - real (panelWidth (options s))\<rparr>)"

subsection \<open>The tick in double arithmetic\<close>

text \<open>
  JavaScript numbers are IEEE 754 doubles. The \<^verbatim>\<open>+=\<close> of line 345 rounds the sum of
  the offset and the speed to the nearest double, ties to even, and the \<^verbatim>\<open>>=\<close> of
  line 348 reads the rounded sum; \<open>updateScrollPosition\<close> above adds exactly, which is
  the same tick whenever the exact sum is a double. A \<open>jsnum\<close> is a finite double
  (given by its value), an infinity or \<^verbatim>\<open>NaN\<close>; the two zeros are one value, since the
  tick neither divides nor reads a sign.

  \<open>round_double x\<close> is the double nearest to the real \<open>x\<close>: \<open>x\<close> is rounded to a multiple
  of \<open>2 powi e\<close>, where \<open>e\<close> is the exponent of the last of the 53 bits of \<open>x\<close> and at
  least that of the subnormal numbers, and a result of magnitude \<open>2 ^ 1024\<close> or more is
  an infinity.
\<close>

datatype jsnum = NaN | NegInfinity | Finite real | PosInfinity

definition round_even :: "real \<Rightarrow> int" where
  "round_even x =
     (let n = \<lfloor>x\<rfloor>; d = x - of_int n
      in if d < 1 / 2 then n else if 1 / 2 < d then n + 1 else if even n then n else n + 1)"

definition ulp_exponent :: "real \<Rightarrow> int" where
  "ulp_exponent x = max (\<lfloor>log 2 \<bar>x\<bar>\<rfloor> - 52) (- 1074)"

definition round_to_grid :: "int \<Rightarrow> real \<Rightarrow> real" where
  "round_to_grid e x = of_int (round_even (x / 2 powi e)) * 2 powi e"

definition round_double :: "real \<Rightarrow> jsnum" where
  "round_double x =
     (if x = 0 then Finite 0
      else
        let r = round_to_grid (ulp_exponent x) x
        in if 2 ^ 1024 \<le> r then PosInfinity
           else if r \<le> - (2 ^ 1024) then NegInfinity
           else Finite r)"

definition is_double :: "real \<Rightarrow> bool" where
  "is_double x \<longleftrightarrow> round_double x = Finite x"

text \<open>Addition, negation and the comparisons on JavaScript numbers.\<close>

fun js_add :: "jsnum \<Rightarrow> jsnum \<Rightarrow> jsnum" where
  "js_add (Finite x) (Finite y) = round_double (x + y)"
| "js_add NaN b = NaN"
| "js_add a NaN = NaN"
| "js_add PosInfinity NegInfinity = NaN"
| "js_add NegInfinity PosInfinity = NaN"
| "js_add PosInfinity b = PosInfinity"
| "js_add a PosInfinity = PosInfinity"
| "js_add NegInfinity b = NegInfinity"
| "js_add a NegInfinity = NegInfinity"

fun js_neg :: "jsnum \<Rightarrow> jsnum" where
  "js_neg NaN = NaN"
| "js_neg NegInfinity = PosInfinity"
| "js_neg (Finite x) = Finite (- x)"
| "js_neg PosInfinity = NegInfinity"

fun js_ge :: "jsnum \<Rightarrow> jsnum \<Rightarrow> bool" where
  "js_ge (Finite x) (Finite y) = (y \<le> x)"
| "js_ge NaN b = False"
| "js_ge a NaN = False"
| "js_ge PosInfinity b = True"
| "js_ge a NegInfinity = True"
| "js_ge a b = False"

fun js_lt :: "jsnum \<Rightarrow> jsnum \<Rightarrow> bool" where
  "js_lt (Finite x) (Finite y) = (x < y)"
| "js_lt NaN b = False"
| "js_lt a NaN = False"
| "js_lt PosInfinity b = False"
| "js_lt a NegInfinity = False"
| "js_lt a b = True"

text \<open>The double of a natural number (a length or a panel dimension); it is exact below
  \<open>2 ^ 53\<close>.\<close>

definition js_of_nat :: "nat \<Rightarrow> jsnum" where
  "js_of_nat n = round_double (real n)"

text \<open>
  The fields that \<^verbatim>\<open>updateScrollPosition\<close> reads and writes, with the offset and the
  speed as JavaScript numbers, and the method on them (lines 337 to 354).
\<close>

record js_display =
  js_textBitmap :: "cell list list option"
  js_panelWidth :: nat
  js_scrollSpeed :: jsnum
  js_scrollOffset :: jsnum
  js_currentColorIndex :: nat

definition updateScrollPosition_js :: "js_display \<Rightarrow> js_display" where
  "updateScrollPosition_js s =
     (case js_textBitmap s of
        None \<Rightarrow> s
      | Some bm \<Rightarrow>
          if length bm = 0 then s
          else
            let textWidth = length (bm ! 0);
                s1 = s\<lparr>js_scrollOffset := js_add (js_scrollOffset s) (js_scrollSpeed s)\<rparr>
            in if js_ge (js_scrollOffset s1)
                        (js_add (js_of_nat textWidth) (js_of_nat (js_panelWidth s1)))
               then s1\<lparr>js_scrollOffset := js_neg (js_of_nat (js_panelWidth s1)),
                       js_currentColorIndex :=
                         (js_currentColorIndex s1 + 1) mod length colorSequence\<rparr>
               else s1)"

text \<open>The real-valued object seen as one with JavaScript numbers.\<close>

definition js_view :: "display \<Rightarrow> js_display" where
  "js_view s =
     \<lparr> js_textBitmap = textBitmap s,
       js_panelWidth = panelWidth (options s),
       js_scrollSpeed = Finite (scrollSpeed (options s)),
       js_scrollOffset = Finite (scrollOffset s),
       js_currentColorIndex = currentColorIndex s \<rparr>"

text \<open>
  The sum of the offset and the speed is \<^verbatim>\<open>NaN\<close> only for a \<^verbatim>\<open>NaN\<close> operand or for
  opposite infinities. The speed is never \<^verbatim>\<open>NaN\<close> (it is falsy, so the default replaces
  it) and never changes; the offset starts at 0 or \<open>- panelWidth\<close>, and a tick keeps it
  below the wrap bound.
\<close>

definition sum_defined :: "js_display \<Rightarrow> bool" where
  "sum_defined s \<longleftrightarrow>
     js_scrollSpeed s \<noteq> NaN
     \<and> js_scrollOffset s \<noteq> NaN \<and> js_scrollOffset s \<noteq> PosInfinity
     \<and> (js_scrollSpeed s = PosInfinity \<longrightarrow> js_scrollOffset s \<noteq> NegInfinity)
     \<and> js_of_nat (js_panelWidth s) \<noteq> PosInfinity"

subsection \<open>Construction and the public factory\<close>

text \<open>
  The page holds what the factory and the constructor touch outside the object: the
  elements by id, \<^verbatim>\<open>document.body\<close>, the console, the containers that received a
  renderer canvas (\<^verbatim>\<open>init\<close>) and the number of resize listeners.
\<close>

record page =
  elements :: "string \<rightharpoonup> nat"
  document_body :: nat
  console :: "string list"
  mounted :: "nat list"
  resizeListeners :: nat

definition init :: "page \<Rightarrow> display \<Rightarrow> page" where
  "init pg s = pg\<lparr>mounted := mounted pg @ [container (options s)]\<rparr>"

definition PremiumLEDDisplay :: "canvas \<Rightarrow> page \<Rightarrow> ctor_options \<Rightarrow> page \<times> display result" where
  "PremiumLEDDisplay draw pg a =
     (let s0 = \<lparr> options = default_options (document_body pg) a,
                 leds = 0, ledStates = [], textBitmap = None,
                 scrollOffset = 0, currentColorIndex = 0 \<rparr>;
          pg1 = init pg s0
      in case createTextBitmap draw s0 of
           Inl e \<Rightarrow> (pg1, Inl e)
         | Inr s1 \<Rightarrow>
             (case animate (createLEDs s1) of
                Inl e \<Rightarrow> (pg1, Inl e)
              | Inr s2 \<Rightarrow> (pg1\<lparr>resizeListeners := Suc (resizeListeners pg1)\<rparr>, Inr s2)))"

text \<open>
  \<^verbatim>\<open>{container, ...options}\<close>: a \<^verbatim>\<open>container\<close> property of \<^verbatim>\<open>options\<close>, when
  present, replaces the element found. The factory returns \<^verbatim>\<open>null\<close> (\<open>None\<close>) or
  the new object, or the constructor's exception passes through it.
\<close>

definition spread_container :: "nat \<Rightarrow> ctor_options \<Rightarrow> ctor_options" where
  "spread_container el a =
     (if arg_container a = Absent then a\<lparr>arg_container := Given el\<rparr> else a)"

definition initLEDBanner ::
  "canvas \<Rightarrow> page \<Rightarrow> string \<Rightarrow> ctor_options \<Rightarrow> page \<times> ((error \<times> display) + display option)" where
  "initLEDBanner draw pg containerId a =
     (case elements pg containerId of
        Some el \<Rightarrow>
          (case PremiumLEDDisplay draw pg (spread_container el a) of
             (pg', Inl e) \<Rightarrow> (pg', Inl e)
           | (pg', Inr s) \<Rightarrow> (pg', Inr (Some s)))
      | None \<Rightarrow> (pg\<lparr>console := console pg @ [''Container not found'']\<rparr>, Inr None))"

subsection \<open>The grid invariant and sample data\<close>

text \<open>
  \<^verbatim>\<open>createLEDs\<close> is the only method that assigns \<^verbatim>\<open>leds\<close> and
  \<^verbatim>\<open>ledStates\<close>, and no method changes the panel dimensions afterwards: one mesh
  and one state cell per panel position.
\<close>

definition grid_ok :: "display \<Rightarrow> bool" where
  "grid_ok s \<longleftrightarrow>
     leds s = panelHeight (options s) * panelWidth (options s)
     \<and> length (ledStates s) = panelHeight (options s)
     \<and> (\<forall>row \<in> set (ledStates s). length row = panelWidth (options s))"

text \<open>A canvas that stays black, the bitmap of the scenario in the specification, and a
  small panel showing it.\<close>

definition blank_canvas :: canvas where
  "blank_canvas t w h = replicate (w * h * 4) 0"

definition demo_bitmap :: "cell list list" where
  "demo_bitmap = [[Some True, Some False, Some True], [Some False, Some True, Some False]]"

definition demo_options :: options where
  "demo_options = \<lparr> container = 0, banner_text = ''A'', panelWidth = 4, panelHeight = 2,
     ledSize = 85 / 100, spacing = 12 / 10, offColor = 0x100000, scrollSpeed = 1 \<rparr>"

definition demo :: display where
  "demo = \<lparr> options = demo_options, leds = 8,
     ledStates = [[Some False, Some False, Some False, Some False],
                  [Some False, Some False, Some False, Some False]],
     textBitmap = Some demo_bitmap, scrollOffset = 0, currentColorIndex = 0 \<rparr>"

definition no_options :: ctor_options where
  "no_options = \<lparr> arg_container = Absent, arg_text = Absent, arg_panelWidth = Absent,
     arg_panelHeight = Absent, arg_ledSize = Absent, arg_spacing = Absent,
     arg_offColor = Absent, arg_scrollSpeed = Absent \<rparr>"

definition demo_page :: page where
  "demo_page = \<lparr> elements = [''banner'' \<mapsto> 7], document_body = 1, console = [],
     mounted = [], resizeListeners = 0 \<rparr>"

text \<open>
  Text \<^verbatim>\<open>A\<close> (bitmap width 25) on a panel of width 51 with the default speed, the
  double nearest to 0.4: the object before the tick 190 after construction (offset the
  double nearest to 75.6), and before the third tick (offset the double nearest to 0.8).
\<close>

definition tick190 :: js_display where
  "tick190 =
     \<lparr> js_textBitmap = Some [replicate 25 (Some False)],
       js_panelWidth = 51,
       js_scrollSpeed = Finite (3602879701896397 / 2 ^ 53),
       js_scrollOffset = Finite (2659938529915699 / 2 ^ 45),
       js_currentColorIndex = 0 \<rparr>"

definition tick3 :: js_display where
  "tick3 =
     \<lparr> js_textBitmap = Some [replicate 25 (Some False)],
       js_panelWidth = 51,
       js_scrollSpeed = Finite (3602879701896397 / 2 ^ 53),
       js_scrollOffset = Finite (3602879701896397 / 2 ^ 52),
       js_currentColorIndex = 0 \<rparr>"

section \<open>Double arithmetic\<close>

lemma floor_log2_eq:
  assumes "2 powi k \<le> x" and "x < 2 powi (k + 1)"
  shows "\<lfloor>log 2 x\<rfloor> = k"
proof -
  have pos: "0 < x"
    using assms(1) by (rule less_le_trans [rotated]) simp
  have lower: "(2::real) powr real_of_int k = 2 powi k"
    by (rule powr_real_of_int') simp_all
  have upper: "(2::real) powr real_of_int (k + 1) = 2 powi (k + 1)"
    by (rule powr_real_of_int') simp_all
  have "\<lfloor>log 2 x\<rfloor> = k \<longleftrightarrow> 2 powr real_of_int k \<le> x \<and> x < 2 powr real_of_int (k + 1)"
    using pos by (intro floor_log_eq_powr_iff) simp_all
  then show ?thesis
    unfolding lower upper using assms by blast
qed

lemma floor_log2_bounds:
  assumes "0 < x"
  shows "2 powi \<lfloor>log 2 x\<rfloor> \<le> x" and "x < 2 powi (\<lfloor>log 2 x\<rfloor> + 1)"
proof -
  let ?k = "\<lfloor>log 2 x\<rfloor>"
  have lower: "(2::real) powr real_of_int ?k = 2 powi ?k"
    by (rule powr_real_of_int') simp_all
  have upper: "(2::real) powr real_of_int (?k + 1) = 2 powi (?k + 1)"
    by (rule powr_real_of_int') simp_all
  have "\<lfloor>log 2 x\<rfloor> = ?k \<longleftrightarrow> 2 powr real_of_int ?k \<le> x \<and> x < 2 powr real_of_int (?k + 1)"
    using assms by (intro floor_log_eq_powr_iff) simp_all
  then show "2 powi ?k \<le> x" and "x < 2 powi (?k + 1)"
    unfolding lower upper by simp_all
qed

lemma round_even_of_int: "round_even (of_int n) = n"
  by (simp add: round_even_def)

lemma round_even_ge_floor: "\<lfloor>y\<rfloor> \<le> round_even y"
  by (simp add: round_even_def Let_def)

lemma round_even_le_floor_plus: "round_even y \<le> \<lfloor>y\<rfloor> + 1"
  by (simp add: round_even_def Let_def)

lemma round_even_mono:
  assumes "a \<le> b"
  shows "round_even a \<le> round_even b"
proof (cases "\<lfloor>a\<rfloor> = \<lfloor>b\<rfloor>")
  case True
  then show ?thesis
    using assms by (auto simp: round_even_def Let_def)
next
  case False
  then have "\<lfloor>a\<rfloor> + 1 \<le> \<lfloor>b\<rfloor>"
    using floor_mono [OF assms] by simp
  then show ?thesis
    using round_even_le_floor_plus [of a] round_even_ge_floor [of b] by simp
qed

lemma round_even_minus: "round_even (- a) = - round_even a"
proof (cases "a = of_int \<lfloor>a\<rfloor>")
  case True
  define n where "n = \<lfloor>a\<rfloor>"
  have a: "a = of_int n"
    using True by (simp add: n_def)
  have "round_even (- a) = round_even (of_int (- n))"
    by (simp add: a)
  also have "\<dots> = - n"
    by (rule round_even_of_int)
  also have "\<dots> = - round_even a"
    unfolding a by (simp only: round_even_of_int)
  finally show ?thesis .
next
  case False
  define n where "n = \<lfloor>a\<rfloor>"
  define d where "d = a - of_int n"
  have "of_int n < a"
    using False unfolding n_def by (metis of_int_floor_le order_le_less)
  moreover have "a < of_int n + 1"
    unfolding n_def by linarith
  ultimately have d: "0 < d" "d < 1"
    by (simp_all add: d_def)
  have a: "a = of_int n + d"
    by (simp add: d_def)
  have fl: "\<lfloor>a\<rfloor> = n" and fl_neg: "\<lfloor>- a\<rfloor> = - n - 1"
    unfolding a using d by (simp_all add: floor_unique)
  have up: "round_even a =
      (if d < 1 / 2 then n else if 1 / 2 < d then n + 1 else if even n then n else n + 1)"
    unfolding round_even_def Let_def fl by (simp add: a)
  have down: "round_even (- a) =
      (if 1 / 2 < d then - n - 1 else if d < 1 / 2 then - n else if odd n then - n - 1 else - n)"
    unfolding round_even_def Let_def fl_neg by (simp add: a)
  show ?thesis
    unfolding up down by simp
qed

lemma grid_quotient:
  assumes "e' \<le> e"
  shows "real_of_int m * 2 powi e / 2 powi e' = of_int (m * 2 ^ nat (e - e'))"
proof -
  have "(2::real) powi e = 2 powi (e - e') * 2 powi e'"
    by (simp flip: power_int_add)
  moreover have "(2::real) powi (e - e') = 2 ^ nat (e - e')"
    using assms by (simp add: power_int_def)
  ultimately show ?thesis by simp
qed

text \<open>Evaluating \<open>round_double\<close> at a number whose exponent is known.\<close>

lemma round_double_eval:
  assumes "2 powi (e + 52) \<le> \<bar>x\<bar>" and "\<bar>x\<bar> < 2 powi (e + 53)" and "- 1074 \<le> e"
    and "round_even (x / 2 powi e) = m"
    and "\<bar>real_of_int m * 2 powi e\<bar> < 2 ^ 1024"
  shows "round_double x = Finite (of_int m * 2 powi e)"
proof -
  have "0 < \<bar>x\<bar>"
    using assms(1) by (rule less_le_trans [rotated]) simp
  then have nz: "x \<noteq> 0" by simp
  have "\<lfloor>log 2 \<bar>x\<bar>\<rfloor> = e + 52"
    using assms(1,2) by (intro floor_log2_eq) (simp_all add: add.assoc)
  then have e: "ulp_exponent x = e"
    using assms(3) by (simp add: ulp_exponent_def)
  show ?thesis
    using assms(5) by (simp add: round_double_def round_to_grid_def nz e assms(4) Let_def abs_less_iff not_le)
qed

text \<open>A number on the grid of its own exponent is a double; so is every natural number below
  \<open>2 ^ 53\<close>.\<close>

lemma round_double_grid:
  assumes "x = of_int m * 2 powi e" and "ulp_exponent x \<le> e" and "\<bar>x\<bar> < 2 ^ 1024"
  shows "round_double x = Finite x"
proof (cases "x = 0")
  case True
  then show ?thesis by (simp add: round_double_def round_to_grid_def)
next
  case False
  define e' where "e' = ulp_exponent x"
  have "x / 2 powi e' = of_int (m * 2 ^ nat (e - e'))"
    unfolding assms(1) using assms(2) [folded e'_def] by (rule grid_quotient)
  then have "round_even (x / 2 powi e') = m * 2 ^ nat (e - e')"
    by (simp only: round_even_of_int)
  moreover have "real_of_int (m * 2 ^ nat (e - e')) * 2 powi e' = x"
    using \<open>x / 2 powi e' = of_int (m * 2 ^ nat (e - e'))\<close> [symmetric] by simp
  ultimately have "of_int (round_even (x / 2 powi e')) * 2 powi e' = x"
    by simp
  then show ?thesis
    using False assms(3) by (simp add: round_double_def round_to_grid_def Let_def abs_less_iff not_le flip: e'_def)
qed

lemma is_doubleI:
  assumes "\<bar>m\<bar> < 2 ^ 53" and "- 1074 \<le> e" and "e \<le> 971"
  shows "is_double (of_int m * 2 powi e)"
proof (cases "m = 0")
  case True
  then show ?thesis by (simp add: is_double_def round_double_def round_to_grid_def)
next
  case False
  let ?x = "real_of_int m * 2 powi e"
  let ?k = "\<lfloor>log 2 \<bar>real_of_int m\<bar>\<rfloor>"
  have pos: "0 < \<bar>real_of_int m\<bar>" using False by simp
  have m_hi: "\<bar>real_of_int m\<bar> < 2 ^ 53"
    using assms(1) by (metis of_int_abs of_int_less_numeral_power_cancel_iff)
  have "2 powi ?k \<le> \<bar>real_of_int m\<bar>"
    using floor_log2_bounds(1) [OF pos] .
  then have "(2::real) powi ?k < 2 powi 53"
    using m_hi by simp
  then have k: "?k < 53"
    by (rule power_int_le_imp_less_exp [rotated]) simp_all
  have abs_x: "\<bar>?x\<bar> = \<bar>real_of_int m\<bar> * 2 powi e"
    by (simp add: abs_mult)
  have "2 powi (?k + e) \<le> \<bar>?x\<bar>"
    unfolding abs_x using floor_log2_bounds(1) [OF pos]
    by (simp add: power_int_add)
  moreover have "\<bar>?x\<bar> < 2 powi (?k + e + 1)"
    unfolding abs_x using floor_log2_bounds(2) [OF pos]
    by (simp add: power_int_add)
  ultimately have "\<lfloor>log 2 \<bar>?x\<bar>\<rfloor> = ?k + e"
    by (rule floor_log2_eq)
  then have ulp: "ulp_exponent ?x \<le> e"
    using k assms(2) by (simp add: ulp_exponent_def)
  have "\<bar>?x\<bar> < 2 ^ 53 * 2 powi e"
    unfolding abs_x using m_hi by simp
  also have "\<dots> \<le> 2 ^ 53 * 2 powi 971"
  proof (rule mult_left_mono)
    show "(2::real) powi e \<le> 2 powi 971"
      using assms(3) by (rule power_int_increasing) simp
  qed simp
  also have "\<dots> = 2 ^ 1024"
    by simp
  finally have "\<bar>?x\<bar> < 2 ^ 1024" .
  then show ?thesis
    unfolding is_double_def using ulp by (intro round_double_grid [of _ m e]) simp_all
qed

lemma is_double_of_nat:
  assumes "n < 2 ^ 53"
  shows "is_double (real n)"
proof -
  have "\<bar>int n\<bar> < 2 ^ 53"
    using assms by (metis abs_of_nat of_nat_less_numeral_power_cancel_iff)
  then have "is_double (of_int (int n) * 2 powi 0)"
    by (rule is_doubleI) simp_all
  then show ?thesis by simp
qed

lemma js_of_nat_exact: "n < 2 ^ 53 \<Longrightarrow> js_of_nat n = Finite (real n)"
  using is_double_of_nat [of n] by (simp add: js_of_nat_def is_double_def)

lemma round_double_not_NaN: "round_double x \<noteq> NaN"
  by (simp add: round_double_def round_to_grid_def Let_def)

lemma round_double_nonneg:
  assumes "0 \<le> x"
  shows "round_double x \<noteq> NegInfinity"
proof (cases "x = 0")
  case True
  then show ?thesis by (simp add: round_double_def round_to_grid_def)
next
  case False
  let ?e = "ulp_exponent x"
  have "0 \<le> x / 2 powi ?e"
    using assms by simp
  then have "0 \<le> \<lfloor>x / 2 powi ?e\<rfloor>"
    by simp
  then have "0 \<le> round_even (x / 2 powi ?e)"
    using round_even_ge_floor [of "x / 2 powi ?e"] by linarith
  then have "0 \<le> real_of_int (round_even (x / 2 powi ?e)) * 2 powi ?e"
    by simp
  moreover have "- (2 ^ 1024) < (0::real)"
    by simp
  ultimately have "\<not> real_of_int (round_even (x / 2 powi ?e)) * 2 powi ?e \<le> - (2 ^ 1024)"
    by (simp only: not_le)
  then show ?thesis
    by (simp add: round_double_def round_to_grid_def Let_def)
qed

lemma js_of_nat_cases: "js_of_nat n \<noteq> NaN" "js_of_nat n \<noteq> NegInfinity"
  by (simp_all add: js_of_nat_def round_double_not_NaN round_double_nonneg)

lemma js_of_nat_Finite:
  assumes "js_of_nat n \<noteq> PosInfinity"
  shows "\<exists>x. js_of_nat n = Finite x"
  using assms js_of_nat_cases [of n] by (cases "js_of_nat n") simp_all

lemma bound_not_NaN: "js_add (js_of_nat a) (js_of_nat b) \<noteq> NaN"
  using js_of_nat_cases [of a] js_of_nat_cases [of b]
  by (cases "js_of_nat a"; cases "js_of_nat b") (simp_all add: round_double_not_NaN)

lemma js_ge_iff_not_lt: "a \<noteq> NaN \<Longrightarrow> b \<noteq> NaN \<Longrightarrow> js_ge a b \<longleftrightarrow> \<not> js_lt a b"
  by (cases a; cases b) auto

text \<open>Rounding is monotone.\<close>

lemma round_to_grid_mono:
  assumes "x \<le> y"
  shows "round_to_grid e x \<le> round_to_grid e y"
proof -
  have "x / 2 powi e \<le> y / 2 powi e"
    using assms by (simp add: divide_right_mono)
  then have "round_even (x / 2 powi e) \<le> round_even (y / 2 powi e)"
    by (rule round_even_mono)
  then show ?thesis
    by (simp add: round_to_grid_def)
qed

lemma round_to_grid_minus: "round_to_grid e (- x) = - round_to_grid e x"
  by (simp add: round_to_grid_def round_even_minus)

lemma round_to_grid_power:
  assumes "e \<le> k"
  shows "round_to_grid e (2 powi k) = 2 powi k"
proof -
  have "real_of_int 1 * 2 powi k / 2 powi e = of_int (1 * 2 ^ nat (k - e))"
    using assms by (rule grid_quotient)
  then have q: "2 powi k / 2 powi e = real_of_int (2 ^ nat (k - e))"
    by simp
  then have "round_even (2 powi k / 2 powi e) = 2 ^ nat (k - e)"
    by (simp only: round_even_of_int)
  then have "round_to_grid e (2 powi k) = real_of_int (2 ^ nat (k - e)) * 2 powi e"
    by (simp add: round_to_grid_def)
  also have "\<dots> = 2 powi k"
    using q [symmetric] by simp
  finally show ?thesis .
qed

lemma round_to_grid_nonneg: "0 \<le> x \<Longrightarrow> 0 \<le> round_to_grid e x"
  using round_to_grid_mono [of 0 x e] by (simp add: round_to_grid_def round_even_def)

lemma ulp_exponent_minus: "ulp_exponent (- x) = ulp_exponent x"
  by (simp add: ulp_exponent_def)

lemma round_value_mono_pos:
  assumes "0 < x" and "x \<le> y"
  shows "round_to_grid (ulp_exponent x) x \<le> round_to_grid (ulp_exponent y) y"
proof -
  let ?kx = "\<lfloor>log 2 x\<rfloor>" and ?ky = "\<lfloor>log 2 y\<rfloor>"
  have y: "0 < y" using assms by simp
  have ex: "ulp_exponent x = max (?kx - 52) (- 1074)" and ey: "ulp_exponent y = max (?ky - 52) (- 1074)"
    using assms(1) y by (simp_all add: ulp_exponent_def)
  have "log 2 x \<le> log 2 y"
    using assms by simp
  then have k: "?kx \<le> ?ky"
    by (rule floor_mono)
  show ?thesis
  proof (cases "ulp_exponent x = ulp_exponent y")
    case True
    then show ?thesis
      using round_to_grid_mono [OF assms(2)] by simp
  next
    case False
    then have lt: "ulp_exponent x < ulp_exponent y" and top: "ulp_exponent y = ?ky - 52"
      and step: "?kx + 1 \<le> ?ky"
      using k unfolding ex ey by linarith+
    let ?q = "(2::real) powi ?ky"
    have "x < 2 powi (?kx + 1)"
      using floor_log2_bounds(2) [OF assms(1)] .
    also have "\<dots> \<le> ?q"
      using step by (rule power_int_increasing) simp
    finally have xq: "x \<le> ?q" by simp
    have qy: "?q \<le> y"
      using floor_log2_bounds(1) [OF y] .
    have "round_to_grid (ulp_exponent x) x \<le> round_to_grid (ulp_exponent x) ?q"
      using xq by (rule round_to_grid_mono)
    also have "\<dots> = ?q"
      using lt top by (intro round_to_grid_power) simp
    also have "\<dots> = round_to_grid (ulp_exponent y) ?q"
      using top by (intro round_to_grid_power [symmetric]) simp
    also have "\<dots> \<le> round_to_grid (ulp_exponent y) y"
      using qy by (rule round_to_grid_mono)
    finally show ?thesis .
  qed
qed

lemma round_value_mono:
  assumes "x \<le> y"
  shows "round_to_grid (ulp_exponent x) x \<le> round_to_grid (ulp_exponent y) y"
proof -
  consider "0 < x" | "y < 0" | "x \<le> 0" "0 \<le> y"
    by linarith
  then show ?thesis
  proof cases
    case 1
    then show ?thesis using assms by (rule round_value_mono_pos)
  next
    case 2
    then have "round_to_grid (ulp_exponent (- y)) (- y) \<le> round_to_grid (ulp_exponent (- x)) (- x)"
      using assms by (intro round_value_mono_pos) simp_all
    then show ?thesis
      by (simp add: ulp_exponent_minus round_to_grid_minus)
  next
    case 3
    have "0 \<le> round_to_grid (ulp_exponent (- x)) (- x)"
      using 3(1) by (intro round_to_grid_nonneg) simp
    then have "round_to_grid (ulp_exponent x) x \<le> 0"
      by (simp add: ulp_exponent_minus round_to_grid_minus)
    also have "0 \<le> round_to_grid (ulp_exponent y) y"
      using 3(2) by (rule round_to_grid_nonneg)
    finally show ?thesis .
  qed
qed

lemma round_double_value:
  "round_double x =
     (let r = round_to_grid (ulp_exponent x) x
      in if 2 ^ 1024 \<le> r then PosInfinity
         else if r \<le> - (2 ^ 1024) then NegInfinity
         else Finite r)"
proof (cases "x = 0")
  case True
  have "round_to_grid (ulp_exponent 0) 0 = 0"
    by (simp add: round_to_grid_def round_even_def)
  then show ?thesis
    using True by (simp add: round_double_def)
next
  case False
  then show ?thesis by (simp add: round_double_def)
qed

lemma round_double_mono:
  assumes "x \<le> y"
  shows "js_ge (round_double y) (round_double x)"
  using round_value_mono [OF assms]
  by (simp add: round_double_value Let_def)
section \<open>Scroll and colour controller\<close>

lemma bitmapWidth_nth0: "bm \<noteq> [] \<Longrightarrow> length (bm ! 0) = bitmapWidth bm"
  by (cases bm) (simp_all add: bitmapWidth_def)

lemma updateScrollPosition_eq:
  assumes "textBitmap s = Some bm" and "bm \<noteq> []"
  shows "updateScrollPosition s =
     (if real (bitmapWidth bm) + real (panelWidth (options s)) \<le> scrollOffset s + scrollSpeed (options s)
      then s\<lparr>scrollOffset := - real (panelWidth (options s)),
             currentColorIndex := (currentColorIndex s + 1) mod length colorSequence\<rparr>
      else s\<lparr>scrollOffset := scrollOffset s + scrollSpeed (options s)\<rparr>)"
  using assms by (simp add: updateScrollPosition_def Let_def bitmapWidth_nth0)

lemma updateScrollPosition_frame:
  "options (updateScrollPosition s) = options s"
  "leds (updateScrollPosition s) = leds s"
  "ledStates (updateScrollPosition s) = ledStates s"
  "textBitmap (updateScrollPosition s) = textBitmap s"
  by (simp_all add: updateScrollPosition_def Let_def split: option.splits)

lemma updateScrollPosition_js_eq:
  assumes "js_textBitmap s = Some bm" and "bm \<noteq> []"
  shows "updateScrollPosition_js s =
     (if js_ge (js_add (js_scrollOffset s) (js_scrollSpeed s))
               (js_add (js_of_nat (bitmapWidth bm)) (js_of_nat (js_panelWidth s)))
      then s\<lparr>js_scrollOffset := js_neg (js_of_nat (js_panelWidth s)),
             js_currentColorIndex := (js_currentColorIndex s + 1) mod length colorSequence\<rparr>
      else s\<lparr>js_scrollOffset := js_add (js_scrollOffset s) (js_scrollSpeed s)\<rparr>)"
  using assms by (simp add: updateScrollPosition_js_def Let_def bitmapWidth_nth0)

text \<open>The doubles nearest to 0.4, 0.8 and 75.6, which the sample objects hold.\<close>

lemma sample_doubles:
  "round_double (4 / 10) = Finite (3602879701896397 / 2 ^ 53)"
  "round_double (8 / 10) = Finite (3602879701896397 / 2 ^ 52)"
  "round_double (756 / 10) = Finite (2659938529915699 / 2 ^ 45)"
proof -
  have "round_double (4 / 10) = Finite (of_int 7205759403792794 * 2 powi (- 54))"
    by (rule round_double_eval) (simp_all add: round_even_def)
  then show "round_double (4 / 10) = Finite (3602879701896397 / 2 ^ 53)"
    by simp
  have "round_double (8 / 10) = Finite (of_int 7205759403792794 * 2 powi (- 53))"
    by (rule round_double_eval) (simp_all add: round_even_def)
  then show "round_double (8 / 10) = Finite (3602879701896397 / 2 ^ 52)"
    by simp
  have "round_double (756 / 10) = Finite (of_int 5319877059831398 * 2 powi (- 46))"
    by (rule round_double_eval) (simp_all add: round_even_def)
  then show "round_double (756 / 10) = Finite (2659938529915699 / 2 ^ 45)"
    by simp
qed

text \<open>
  The sums of the two sample ticks as \<^verbatim>\<open>+=\<close> computes them, 75.6 + 0.4 = 76 and
  0.8 + 0.4 = 1.2000000000000002, and the wrap bound 25 + 51.
\<close>

lemma sum_76: "js_add (Finite (2659938529915699 / 2 ^ 45)) (Finite (3602879701896397 / 2 ^ 53)) = Finite 76"
proof -
  have "round_double (2659938529915699 / 2 ^ 45 + 3602879701896397 / 2 ^ 53)
        = Finite (of_int 5348024557502464 * 2 powi (- 46))"
    by (rule round_double_eval) (simp_all add: round_even_def)
  then show ?thesis by simp
qed

lemma sum_third_tick:
  "js_add (Finite (3602879701896397 / 2 ^ 52)) (Finite (3602879701896397 / 2 ^ 53))
     = Finite (1351079888211149 / 2 ^ 50)"
proof -
  have "round_double (3602879701896397 / 2 ^ 52 + 3602879701896397 / 2 ^ 53)
        = Finite (of_int 5404319552844596 * 2 powi (- 52))"
    by (rule round_double_eval) (simp_all add: round_even_def)
  then show ?thesis by simp
qed

lemma bound_76: "js_add (js_of_nat 25) (js_of_nat 51) = Finite 76"
  using is_double_of_nat [of 76] by (simp add: js_of_nat_exact is_double_def)

text \<open>
  Claim C2. For every state with a non-empty bitmap of width \<open>bitmapWidth bm\<close> in which
  the sum of the offset and the speed, as \<^verbatim>\<open>+=\<close> computes it, is a number, one call of
  \<^verbatim>\<open>updateScrollPosition\<close> has exactly two outcomes: when that sum is below
  \<open>bitmapWidth bm + panelWidth\<close>, the new offset is the sum and the colour index is
  unchanged; otherwise the new offset is \<open>- panelWidth\<close> and the colour index is the old
  one plus 1 modulo the palette size.
\<close>

theorem updateScrollPosition_js_outcomes:
  assumes "js_textBitmap s = Some bm" and "bm \<noteq> []"
    and "js_add (js_scrollOffset s) (js_scrollSpeed s) \<noteq> NaN"
  shows "(js_lt (js_add (js_scrollOffset s) (js_scrollSpeed s))
               (js_add (js_of_nat (bitmapWidth bm)) (js_of_nat (js_panelWidth s)))
            \<longrightarrow> js_scrollOffset (updateScrollPosition_js s)
                  = js_add (js_scrollOffset s) (js_scrollSpeed s)
              \<and> js_currentColorIndex (updateScrollPosition_js s) = js_currentColorIndex s)
       \<and> (\<not> js_lt (js_add (js_scrollOffset s) (js_scrollSpeed s))
                 (js_add (js_of_nat (bitmapWidth bm)) (js_of_nat (js_panelWidth s)))
            \<longrightarrow> js_scrollOffset (updateScrollPosition_js s) = js_neg (js_of_nat (js_panelWidth s))
              \<and> js_currentColorIndex (updateScrollPosition_js s)
                  = (js_currentColorIndex s + 1) mod length colorSequence)"
  using js_ge_iff_not_lt [OF assms(3) bound_not_NaN [of "bitmapWidth bm" "js_panelWidth s"]]
  by (simp add: updateScrollPosition_js_eq [OF assms(1,2)])

theorem updateScrollPosition_js_outcomes_witness:
  "js_scrollOffset (updateScrollPosition_js tick190) = Finite (- 51)
   \<and> js_currentColorIndex (updateScrollPosition_js tick190) = 1
   \<and> js_scrollOffset (updateScrollPosition_js tick3) = Finite (1351079888211149 / 2 ^ 50)
   \<and> js_currentColorIndex (updateScrollPosition_js tick3) = 0"
proof -
  let ?bm = "[replicate 25 (Some False)]"
  have fields:
    "js_textBitmap tick190 = Some ?bm" "js_panelWidth tick190 = 51"
    "js_currentColorIndex tick190 = 0"
    "js_textBitmap tick3 = Some ?bm" "js_panelWidth tick3 = 51"
    "js_currentColorIndex tick3 = 0"
    by (simp_all add: tick190_def tick3_def)
  have sum190: "js_add (js_scrollOffset tick190) (js_scrollSpeed tick190) = Finite 76"
    unfolding tick190_def by (simp only: js_display.simps sum_76)
  have sum3: "js_add (js_scrollOffset tick3) (js_scrollSpeed tick3)
                = Finite (1351079888211149 / 2 ^ 50)"
    unfolding tick3_def by (simp only: js_display.simps sum_third_tick)
  have bound:
    "js_add (js_of_nat (bitmapWidth ?bm)) (js_of_nat (js_panelWidth tick190)) = Finite 76"
    "js_add (js_of_nat (bitmapWidth ?bm)) (js_of_nat (js_panelWidth tick3)) = Finite 76"
    by (simp_all add: fields bitmapWidth_def bound_76)
  have wrapped: "js_neg (js_of_nat (js_panelWidth tick190)) = Finite (- 51)"
    by (simp add: fields js_of_nat_exact)
  have "js_scrollOffset (updateScrollPosition_js tick190) = Finite (- 51)
        \<and> js_currentColorIndex (updateScrollPosition_js tick190) = 1"
    using updateScrollPosition_js_outcomes [of tick190 ?bm]
    by (simp add: fields(1,3) sum190 bound wrapped colorSequence_def)
  moreover have "js_scrollOffset (updateScrollPosition_js tick3) = Finite (1351079888211149 / 2 ^ 50)
        \<and> js_currentColorIndex (updateScrollPosition_js tick3) = 0"
    using updateScrollPosition_js_outcomes [of tick3 ?bm]
    by (simp add: fields(4,6) sum3 bound)
  ultimately show ?thesis by simp
qed

text \<open>The sum is a number in every state that construction, \<^verbatim>\<open>setText\<close> and ticks
  reach.\<close>

lemma sum_defined_sum:
  assumes "sum_defined s"
  shows "js_add (js_scrollOffset s) (js_scrollSpeed s) \<noteq> NaN"
  using assms
  by (cases "js_scrollOffset s"; cases "js_scrollSpeed s")
     (simp_all add: sum_defined_def round_double_not_NaN)

lemma sum_defined_start:
  assumes "speed \<noteq> NaN" and "js_of_nat w \<noteq> PosInfinity"
  shows "sum_defined \<lparr> js_textBitmap = b, js_panelWidth = w, js_scrollSpeed = speed,
                        js_scrollOffset = Finite 0, js_currentColorIndex = i \<rparr>"
    and "sum_defined \<lparr> js_textBitmap = b, js_panelWidth = w, js_scrollSpeed = speed,
                        js_scrollOffset = js_neg (js_of_nat w), js_currentColorIndex = i \<rparr>"
proof -
  obtain x where "js_of_nat w = Finite x"
    using js_of_nat_Finite [OF assms(2)] by blast
  then show
    "sum_defined \<lparr> js_textBitmap = b, js_panelWidth = w, js_scrollSpeed = speed,
                    js_scrollOffset = Finite 0, js_currentColorIndex = i \<rparr>"
    "sum_defined \<lparr> js_textBitmap = b, js_panelWidth = w, js_scrollSpeed = speed,
                    js_scrollOffset = js_neg (js_of_nat w), js_currentColorIndex = i \<rparr>"
    using assms(1) by (simp_all add: sum_defined_def)
qed

lemma sum_defined_tick:
  assumes "sum_defined s"
  shows "sum_defined (updateScrollPosition_js s)"
proof (cases "js_textBitmap s")
  case None
  then show ?thesis using assms by (simp add: updateScrollPosition_js_def)
next
  case (Some bm)
  show ?thesis
  proof (cases "bm = []")
    case True
    then show ?thesis using assms Some by (simp add: updateScrollPosition_js_def)
  next
    case False
    let ?sum = "js_add (js_scrollOffset s) (js_scrollSpeed s)"
    let ?bound = "js_add (js_of_nat (bitmapWidth bm)) (js_of_nat (js_panelWidth s))"
    note eq = updateScrollPosition_js_eq [OF Some False]
    have sum: "?sum \<noteq> NaN"
      using assms by (rule sum_defined_sum)
    have bound: "?bound \<noteq> NaN"
      by (rule bound_not_NaN)
    have "js_of_nat (js_panelWidth s) \<noteq> PosInfinity"
      using assms by (simp add: sum_defined_def)
    then obtain w where w: "js_of_nat (js_panelWidth s) = Finite w"
      using js_of_nat_Finite by blast
    show ?thesis
    proof (cases "js_ge ?sum ?bound")
      case True
      then show ?thesis
        using assms by (simp add: eq sum_defined_def w)
    next
      case False
      then have "?sum \<noteq> PosInfinity"
        using bound by (cases ?bound) auto
      moreover from this have "js_scrollSpeed s \<noteq> PosInfinity"
        using assms by (cases "js_scrollOffset s") (auto simp: sum_defined_def)
      ultimately show ?thesis
        using False sum assms by (simp add: eq sum_defined_def)
    qed
  qed
qed

text \<open>
  The exact tick is the tick in doubles whenever the exact sum is a double and the sizes
  are below \<open>2 ^ 53\<close>. The first tick after construction adds the speed to 0, which is
  exact; and the tick in doubles keeps the offset in its range, as the exact one does.
\<close>

lemma updateScrollPosition_js_exact:
  assumes "is_double (scrollOffset s + scrollSpeed (options s))"
    and "\<And>bm. textBitmap s = Some bm \<Longrightarrow> bitmapWidth bm + panelWidth (options s) < 2 ^ 53"
  shows "updateScrollPosition_js (js_view s) = js_view (updateScrollPosition s)"
proof (cases "textBitmap s")
  case None
  then show ?thesis
    by (simp add: updateScrollPosition_js_def updateScrollPosition_def js_view_def)
next
  case (Some bm)
  show ?thesis
  proof (cases "bm = []")
    case True
    then show ?thesis
      using Some by (simp add: updateScrollPosition_js_def updateScrollPosition_def js_view_def)
  next
    case False
    let ?w = "panelWidth (options s)"
    have small: "bitmapWidth bm + ?w < 2 ^ 53"
      using Some by (rule assms(2))
    then have "js_of_nat (bitmapWidth bm) = Finite (real (bitmapWidth bm))"
      and w: "js_of_nat ?w = Finite (real ?w)"
      by (simp_all add: js_of_nat_exact)
    moreover have "round_double (real (bitmapWidth bm) + real ?w) = Finite (real (bitmapWidth bm) + real ?w)"
      using is_double_of_nat [OF small] by (simp add: is_double_def)
    ultimately have bound: "js_add (js_of_nat (bitmapWidth bm)) (js_of_nat ?w)
                      = Finite (real (bitmapWidth bm) + real ?w)"
      by simp
    have sum: "js_add (Finite (scrollOffset s)) (Finite (scrollSpeed (options s)))
                 = Finite (scrollOffset s + scrollSpeed (options s))"
      using assms(1) by (simp add: is_double_def)
    have view: "js_textBitmap (js_view s) = Some bm" "js_panelWidth (js_view s) = ?w"
      "js_scrollOffset (js_view s) = Finite (scrollOffset s)"
      "js_scrollSpeed (js_view s) = Finite (scrollSpeed (options s))"
      using Some by (simp_all add: js_view_def)
    have wrapped: "js_neg (js_of_nat ?w) = Finite (- real ?w)"
      by (simp add: w)
    show ?thesis
      unfolding updateScrollPosition_js_eq [OF view(1) False]
        updateScrollPosition_eq [OF Some False] view(2,3,4) sum bound wrapped
      by (simp add: js_view_def)
  qed
qed

lemma first_tick_js:
  assumes "is_double v"
  shows "js_add (Finite 0) (Finite v) = Finite v"
  using assms by (simp add: is_double_def)

lemma updateScrollPosition_js_keeps_range:
  assumes "js_textBitmap s = Some bm" and "bm \<noteq> []"
    and "js_scrollOffset s = Finite a" and "is_double a"
    and "js_scrollSpeed s = Finite b"
    and "- real (js_panelWidth s) \<le> a"
    and "a < real (bitmapWidth bm) + real (js_panelWidth s)"
    and "0 < b" and "b < real (js_panelWidth s)"
    and "bitmapWidth bm + js_panelWidth s < 2 ^ 53"
  shows "\<exists>c. js_scrollOffset (updateScrollPosition_js s) = Finite c
           \<and> - real (js_panelWidth s) \<le> c
           \<and> c < real (bitmapWidth bm) + real (js_panelWidth s)"
proof -
  let ?w = "js_panelWidth s"
  let ?sum = "round_double (a + b)"
  let ?bound = "Finite (real (bitmapWidth bm) + real ?w)"
  have "js_of_nat (bitmapWidth bm) = Finite (real (bitmapWidth bm))"
    and w: "js_of_nat ?w = Finite (real ?w)"
    using assms(10) by (simp_all add: js_of_nat_exact)
  moreover have "round_double (real (bitmapWidth bm) + real ?w) = ?bound"
    using is_double_of_nat [OF assms(10)] by (simp add: is_double_def)
  ultimately have bound: "js_add (js_of_nat (bitmapWidth bm)) (js_of_nat ?w) = ?bound"
    by simp
  have wrapped: "js_neg (js_of_nat ?w) = Finite (- real ?w)"
    by (simp add: w)
  have "js_ge ?sum (round_double a)"
    using assms(8) by (intro round_double_mono) simp
  then have above: "js_ge ?sum (Finite a)"
    using assms(4) by (simp add: is_double_def)
  note eq = updateScrollPosition_js_eq [OF assms(1,2), unfolded assms(3,5) bound wrapped js_add.simps]
  show ?thesis
  proof (cases "js_ge ?sum ?bound")
    case True
    then show ?thesis
      using assms(8,9) by (simp add: eq)
  next
    case False
    then obtain c where c: "?sum = Finite c"
      using above by (cases ?sum) simp_all
    then show ?thesis
      using False above assms(6) by (simp add: eq)
  qed
qed

text \<open>
  Claim C6. When the offset lies in \<open>[- panelWidth, bitmapWidth bm + panelWidth)\<close> and
  \<open>0 < scrollSpeed < panelWidth\<close>, the offset after a tick lies in the same interval.
\<close>

theorem tick_keeps_range:
  assumes "textBitmap s = Some bm" and "bm \<noteq> []"
    and "- real (panelWidth (options s)) \<le> scrollOffset s"
    and "scrollOffset s < real (bitmapWidth bm) + real (panelWidth (options s))"
    and "0 < scrollSpeed (options s)"
    and "scrollSpeed (options s) < real (panelWidth (options s))"
  shows "- real (panelWidth (options s)) \<le> scrollOffset (updateScrollPosition s)
       \<and> scrollOffset (updateScrollPosition s) < real (bitmapWidth bm) + real (panelWidth (options s))"
  using assms by (simp add: updateScrollPosition_def Let_def bitmapWidth_nth0 not_le)

theorem tick_keeps_range_witness:
  "- 4 \<le> scrollOffset (updateScrollPosition (demo\<lparr>scrollOffset := 6\<rparr>))
   \<and> scrollOffset (updateScrollPosition (demo\<lparr>scrollOffset := 6\<rparr>)) < 7"
  using tick_keeps_range [of "demo\<lparr>scrollOffset := 6\<rparr>" demo_bitmap]
  by (simp add: demo_def demo_options_def demo_bitmap_def bitmapWidth_def)

section \<open>The grid recompute\<close>

lemma for_each_append:
  "for_each (xs @ ys) body s =
     (case for_each xs body s of Inl e \<Rightarrow> Inl e | Inr s' \<Rightarrow> for_each ys body s')"
  by (induction xs arbitrary: s) (auto split: sum.splits)

lemma update_after_prefix:
  assumes "length pre = n" and "n < length row"
  shows "(pre @ drop n row)[n := v] = (pre @ [v]) @ drop (Suc n) row"
proof -
  have "drop n row = row ! n # drop (Suc n) row"
    using assms(2) by (simp add: Cons_nth_drop_Suc)
  then show ?thesis
    using assms(1) by (simp add: list_update_append)
qed

lemma setLED_in_grid:
  assumes "y * w + x < leds s" and "y < length (ledStates s)" and "x < length (ledStates s ! y)"
  shows "setLED w y x s =
           Inr (s\<lparr>ledStates := (ledStates s)[y := (ledStates s ! y)[x := isOn (textBitmap s) (scrollOffset s) y x]]\<rparr>)"
  using assms by (simp add: setLED_def js_write_def Let_def)

lemma row_loop:
  assumes "y < length (ledStates s)" and "length (ledStates s ! y) = w"
    and "n \<le> w" and "y * w + w \<le> leds s"
  shows "for_each [0..<n] (setLED w y) s =
           Inr (s\<lparr>ledStates := (ledStates s)
                  [y := map (isOn (textBitmap s) (scrollOffset s) y) [0..<n] @ drop n (ledStates s ! y)]\<rparr>)"
  using assms(3)
proof (induction n)
  case 0
  show ?case by simp
next
  case (Suc n)
  let ?row = "ledStates s ! y"
  let ?pre = "map (isOn (textBitmap s) (scrollOffset s) y) [0..<n]"
  let ?s1 = "s\<lparr>ledStates := (ledStates s)[y := ?pre @ drop n ?row]\<rparr>"
  have n: "n < w" using Suc.prems by simp
  have before: "for_each [0..<n] (setLED w y) s = Inr ?s1"
    using Suc.IH n by simp
  have step: "setLED w y n ?s1 =
      Inr (?s1\<lparr>ledStates := (ledStates ?s1)[y := (ledStates ?s1 ! y)[n := isOn (textBitmap ?s1) (scrollOffset ?s1) y n]]\<rparr>)"
    using assms(1,2,4) n by (intro setLED_in_grid) simp_all
  have row: "(?pre @ drop n ?row)[n := v] = (?pre @ [v]) @ drop (Suc n) ?row" for v
    using assms(2) n by (intro update_after_prefix) simp_all
  show ?case
    using assms(1) by (simp add: for_each_append before step row del: upt_Suc add: upt_Suc_append)
qed

lemma row_loop_full:
  assumes "y < length (ledStates s)" and "length (ledStates s ! y) = w" and "y * w + w \<le> leds s"
  shows "for_each [0..<w] (setLED w y) s =
           Inr (s\<lparr>ledStates := (ledStates s)[y := map (isOn (textBitmap s) (scrollOffset s) y) [0..<w]]\<rparr>)"
  using row_loop [OF assms(1,2) order_refl assms(3)] assms(2) by simp

lemma grid_loop:
  assumes "grid_ok s" and "w = panelWidth (options s)" and "m \<le> panelHeight (options s)"
  shows "for_each [0..<m] (\<lambda>y. for_each [0..<w] (setLED w y)) s =
           Inr (s\<lparr>ledStates :=
                    map (\<lambda>y. map (isOn (textBitmap s) (scrollOffset s) y) [0..<w]) [0..<m]
                    @ drop m (ledStates s)\<rparr>)"
  using assms(3)
proof (induction m)
  case 0
  show ?case by simp
next
  case (Suc m)
  let ?grid = "map (\<lambda>y. map (isOn (textBitmap s) (scrollOffset s) y) [0..<w]) [0..<m]"
  let ?s1 = "s\<lparr>ledStates := ?grid @ drop m (ledStates s)\<rparr>"
  have m: "m < panelHeight (options s)" using Suc.prems by simp
  have len: "length (ledStates s) = panelHeight (options s)"
    and rows: "length (ledStates s ! m) = w"
    and cnt: "leds s = panelHeight (options s) * w"
    using assms(1,2) m by (simp_all add: grid_ok_def)
  have before: "for_each [0..<m] (\<lambda>y. for_each [0..<w] (setLED w y)) s = Inr ?s1"
    using Suc.IH m by simp
  have "Suc m * w \<le> panelHeight (options s) * w"
    using m by (intro mult_le_mono1) simp
  then have room: "m * w + w \<le> leds ?s1"
    using cnt by simp
  have at_m: "ledStates ?s1 ! m = ledStates s ! m"
    using m len by (simp add: nth_append)
  have step: "for_each [0..<w] (setLED w m) ?s1 =
      Inr (?s1\<lparr>ledStates := (ledStates ?s1)[m := map (isOn (textBitmap ?s1) (scrollOffset ?s1) m) [0..<w]]\<rparr>)"
    using m len rows room at_m by (intro row_loop_full) simp_all
  have upd: "(?grid @ drop m (ledStates s))[m := r] = (?grid @ [r]) @ drop (Suc m) (ledStates s)" for r
    using m len by (intro update_after_prefix) simp_all
  show ?case
    by (simp add: for_each_append before step upd del: upt_Suc add: upt_Suc_append)
qed

lemma updateLEDs_grid:
  assumes "grid_ok s"
  shows "updateLEDs s =
           Inr (s\<lparr>ledStates :=
                    map (\<lambda>y. map (isOn (textBitmap s) (scrollOffset s) y)
                                  [0..<panelWidth (options s)])
                        [0..<panelHeight (options s)]\<rparr>)"
  using grid_loop [OF assms refl order_refl] assms
  by (simp add: updateLEDs_def grid_ok_def)

lemma updateLEDs_at:
  assumes "grid_ok s" and "row < panelHeight (options s)" and "col < panelWidth (options s)"
  shows "\<exists>s'. updateLEDs s = Inr s'
           \<and> ledStates s' ! row ! col = isOn (textBitmap s) (scrollOffset s) row col"
  using assms(2,3) by (simp add: updateLEDs_grid [OF assms(1)])

lemma isOn_Some:
  "isOn (Some bm) offset y x =
     (if y < length bm \<and> 0 \<le> int x + \<lfloor>offset\<rfloor> \<and> int x + \<lfloor>offset\<rfloor> < int (bitmapWidth bm)
      then js_read (bm ! y) (nat (int x + \<lfloor>offset\<rfloor>)) else Some False)"
proof (cases "bm = []")
  case True
  then show ?thesis by (simp add: isOn_def)
next
  case False
  then show ?thesis by (simp add: isOn_def Let_def bitmapWidth_nth0)
qed

text \<open>The invariant holds after \<^verbatim>\<open>createLEDs\<close> and is kept by a tick.\<close>

lemma grid_ok_createLEDs: "grid_ok (createLEDs s)"
  by (simp add: grid_ok_def createLEDs_def)

lemma grid_ok_updateScrollPosition: "grid_ok s \<Longrightarrow> grid_ok (updateScrollPosition s)"
  by (simp add: grid_ok_def updateScrollPosition_frame)

lemma grid_ok_updateLEDs:
  assumes "grid_ok s"
  shows "\<exists>s'. updateLEDs s = Inr s' \<and> grid_ok s'"
  using assms by (simp add: updateLEDs_grid [OF assms] grid_ok_def)

lemma animate_grid:
  assumes "grid_ok s"
  shows "\<exists>s'. animate s = Inr s'
           \<and> options s' = options s \<and> textBitmap s' = textBitmap s
           \<and> scrollOffset s' = scrollOffset (updateScrollPosition s)
           \<and> currentColorIndex s' = currentColorIndex (updateScrollPosition s)
           \<and> grid_ok s'"
  using grid_ok_updateScrollPosition [OF assms]
  by (simp add: animate_def updateLEDs_grid updateScrollPosition_frame grid_ok_def)

text \<open>
  Claim C1. For every bitmap, scroll offset, \<open>panelWidth \<ge> 1\<close> and
  \<open>panelHeight \<ge> 1\<close>, \<^verbatim>\<open>updateLEDs\<close> returns, and for every \<open>row < panelHeight\<close>
  and \<open>col < panelWidth\<close> the cell \<open>(row, col)\<close> is on if and only if
  \<open>row < length bm\<close>, \<open>0 \<le> col + \<lfloor>offset\<rfloor> < bitmapWidth bm\<close> and the bitmap holds
  \<^verbatim>\<open>true\<close> at \<open>(row, col + \<lfloor>offset\<rfloor>)\<close>; a cell outside the bitmap, in particular
  in a panel row at or beyond the bitmap's height, is \<^verbatim>\<open>false\<close>.
\<close>

theorem updateLEDs_cells:
  assumes "grid_ok s" and "textBitmap s = Some bm"
    and "1 \<le> panelWidth (options s)" and "1 \<le> panelHeight (options s)"
    and "row < panelHeight (options s)" and "col < panelWidth (options s)"
  shows "\<exists>s'. updateLEDs s = Inr s'
           \<and> (ledStates s' ! row ! col = Some True \<longleftrightarrow>
                row < length bm
                \<and> 0 \<le> int col + \<lfloor>scrollOffset s\<rfloor>
                \<and> int col + \<lfloor>scrollOffset s\<rfloor> < int (bitmapWidth bm)
                \<and> js_read (bm ! row) (nat (int col + \<lfloor>scrollOffset s\<rfloor>)) = Some True)
           \<and> (\<not> (row < length bm
                  \<and> 0 \<le> int col + \<lfloor>scrollOffset s\<rfloor>
                  \<and> int col + \<lfloor>scrollOffset s\<rfloor> < int (bitmapWidth bm))
                \<longrightarrow> ledStates s' ! row ! col = Some False)"
proof -
  obtain s' where run: "updateLEDs s = Inr s'"
    and cell: "ledStates s' ! row ! col = isOn (Some bm) (scrollOffset s) row col"
    using updateLEDs_at [OF assms(1,5,6)] assms(2) by auto
  show ?thesis
    by (intro exI [of _ s']) (auto simp: run cell isOn_Some)
qed

theorem updateLEDs_cells_witness:
  "\<exists>s'. updateLEDs (demo\<lparr>scrollOffset := - (1 / 2)\<rparr>) = Inr s'
        \<and> ledStates s' ! 0 ! 1 = Some True"
  using updateLEDs_cells [of "demo\<lparr>scrollOffset := - (1 / 2)\<rparr>" demo_bitmap 0 1]
  by (simp add: demo_def demo_options_def demo_bitmap_def grid_ok_def bitmapWidth_def js_read_def)

text \<open>
  The loops run on the sample panel: the bitmap \<open>[[T, F, T], [F, T, F]]\<close> at offset 0,
  and one frame later at offset 1.
\<close>

lemma scenario_frame:
  "updateLEDs demo =
     Inr (demo\<lparr>ledStates := [[Some True, Some False, Some True, Some False],
                              [Some False, Some True, Some False, Some False]]\<rparr>)"
  by (simp add: updateLEDs_def demo_def demo_options_def demo_bitmap_def upt_conv_Cons
        setLED_def isOn_def js_write_def js_read_def Let_def)

lemma scenario_next_frame:
  "animate demo =
     Inr (demo\<lparr>scrollOffset := 1,
              ledStates := [[Some False, Some True, Some False, Some False],
                            [Some True, Some False, Some False, Some False]]\<rparr>)"
  by (simp add: animate_def updateScrollPosition_def updateLEDs_def demo_def demo_options_def
        demo_bitmap_def upt_conv_Cons setLED_def isOn_def js_write_def js_read_def Let_def)

section \<open>The rasterizer\<close>

lemma canvas_width_div: "canvas_width t = (length t * 128) div 5"
proof -
  have "real (length t) * real fontSize * (8 / 10) = real (length t * 128) / real 5"
    by (simp add: fontSize_def)
  then show ?thesis
    unfolding canvas_width_def by (simp only: floor_divide_of_nat_eq nat_int)
qed

lemma canvas_width_pos: "t \<noteq> [] \<Longrightarrow> 25 \<le> canvas_width t"
proof -
  assume "t \<noteq> []"
  then have "1 \<le> length t" by (cases t) simp_all
  then have "128 div 5 \<le> (length t * 128) div (5::nat)"
    by (intro div_le_mono) simp
  then show ?thesis by (simp add: canvas_width_div)
qed

lemma canvas_width_empty: "canvas_width [] = 0"
  by (simp add: canvas_width_div)

lemma thresholdBitmap_length: "length (thresholdBitmap data w h) = h"
  by (simp add: thresholdBitmap_def)

lemma thresholdBitmap_row: "y < h \<Longrightarrow> length (thresholdBitmap data w h ! y) = w"
  by (simp add: thresholdBitmap_def)

lemma js_read_row: "map (js_read r) [0..<length r] = r"
  by (rule nth_equalityI) (simp_all add: js_read_def)

lemma srcRow_in_range: "0 < h \<Longrightarrow> srcRow target h y < h"
  by (simp add: srcRow_def Let_def nat_less_iff min_def)

lemma resizeBitmap_smaller:
  assumes "target < length bm" and "\<forall>r \<in> set bm. length r = w"
  shows "resizeBitmap bm target = map (\<lambda>y. bm ! srcRow target (length bm) y) [0..<target]"
proof -
  have pos: "0 < length bm" using assms(1) by (cases bm) simp_all
  have row: "length (bm ! i) = w" if "i < length bm" for i
    using assms(2) that by simp
  have "map (js_read (bm ! srcRow target (length bm) y)) [0..<length (bm ! 0)]
        = bm ! srcRow target (length bm) y" for y
  proof -
    have "length (bm ! 0) = w"
      using pos by (rule row)
    moreover have "length (bm ! srcRow target (length bm) y) = w"
      using srcRow_in_range [OF pos] by (rule row)
    ultimately have "length (bm ! 0) = length (bm ! srcRow target (length bm) y)"
      by simp
    then show ?thesis
      by (simp only: js_read_row)
  qed
  then show ?thesis
    using assms(1) by (simp add: resizeBitmap_def)
qed

lemma resizeBitmap_larger: "length bm \<le> target \<Longrightarrow> resizeBitmap bm target = bm"
  by (simp add: resizeBitmap_def)

text \<open>
  Claim C7. For a thresholded pixel buffer of height \<open>h\<close> and a target height of at
  least 1: when \<open>target < h\<close> the resized bitmap has exactly \<open>target\<close> rows, row \<open>y\<close>
  is the source row \<open>min \<lfloor>y / (target / h)\<rfloor> (h - 1)\<close> and every row keeps the width
  \<open>w\<close>; when \<open>h \<le> target\<close> the bitmap is returned unchanged, with height \<open>h\<close>.
\<close>

theorem resizeBitmap_rows:
  assumes "1 \<le> target" and "bm = thresholdBitmap data w h"
  shows "(target < h \<longrightarrow>
            length (resizeBitmap bm target) = target
            \<and> (\<forall>y < target. resizeBitmap bm target ! y
                   = bm ! nat (min \<lfloor>real y / (real target / real h)\<rfloor> (int h - 1)))
            \<and> (\<forall>r \<in> set (resizeBitmap bm target). length r = w))
       \<and> (h \<le> target \<longrightarrow> resizeBitmap bm target = bm \<and> length (resizeBitmap bm target) = h)"
proof -
  have len: "length bm = h" and rows: "\<forall>r \<in> set bm. length r = w"
    using assms(2) by (auto simp: thresholdBitmap_def)
  show ?thesis
  proof (intro conjI impI)
    assume small: "target < h"
    then have eq: "resizeBitmap bm target = map (\<lambda>y. bm ! srcRow target h y) [0..<target]"
      using resizeBitmap_smaller [of target bm w] len rows by simp
    show "length (resizeBitmap bm target) = target"
      by (simp add: eq)
    show "\<forall>y < target. resizeBitmap bm target ! y
            = bm ! nat (min \<lfloor>real y / (real target / real h)\<rfloor> (int h - 1))"
      by (simp add: eq srcRow_def)
    show "\<forall>r \<in> set (resizeBitmap bm target). length r = w"
      using small rows len by (auto simp: eq srcRow_in_range)
  next
    assume "h \<le> target"
    then show "resizeBitmap bm target = bm"
      using len by (simp add: resizeBitmap_larger)
    then show "length (resizeBitmap bm target) = h"
      using len by simp
  qed
qed

theorem resizeBitmap_rows_witness:
  "length (resizeBitmap (thresholdBitmap [200, 0, 0, 255, 0, 0, 0, 255, 0, 0, 0, 255] 1 3) 2) = 2
   \<and> resizeBitmap (thresholdBitmap [200, 0, 0, 255, 0, 0, 0, 255, 0, 0, 0, 255] 1 3) 2 ! 1
       = thresholdBitmap [200, 0, 0, 255, 0, 0, 0, 255, 0, 0, 0, 255] 1 3 ! 1
   \<and> resizeBitmap (thresholdBitmap [200, 0, 0, 255, 0, 0, 0, 255, 0, 0, 0, 255] 1 3) 5
       = thresholdBitmap [200, 0, 0, 255, 0, 0, 0, 255, 0, 0, 0, 255] 1 3"
  using resizeBitmap_rows [of 2 "thresholdBitmap [200, 0, 0, 255, 0, 0, 0, 255, 0, 0, 0, 255] 1 3"
          "[200, 0, 0, 255, 0, 0, 0, 255, 0, 0, 0, 255]" 1 3]
        resizeBitmap_rows [of 5 "thresholdBitmap [200, 0, 0, 255, 0, 0, 0, 255, 0, 0, 0, 255] 1 3"
          "[200, 0, 0, 255, 0, 0, 0, 255, 0, 0, 0, 255]" 1 3]
  by simp

lemma bitmapWidth_resize:
  assumes "1 \<le> target" and "0 < h"
  shows "bitmapWidth (resizeBitmap (thresholdBitmap data w h) target) = w"
proof (cases "target < h")
  case True
  let ?bm = "thresholdBitmap data w h"
  have "resizeBitmap ?bm target = map (\<lambda>y. ?bm ! srcRow target h y) [0..<target]"
    using resizeBitmap_smaller [of target ?bm w] True
    by (simp add: thresholdBitmap_length) (simp add: thresholdBitmap_def)
  moreover have "[0..<target] = 0 # [1..<target]"
    using assms(1) by (simp add: upt_conv_Cons)
  ultimately show ?thesis
    using assms(2) by (simp add: bitmapWidth_def thresholdBitmap_row srcRow_in_range)
next
  case False
  then have "resizeBitmap (thresholdBitmap data w h) target = thresholdBitmap data w h"
    by (simp add: resizeBitmap_larger thresholdBitmap_length)
  moreover have "[0..<h] = 0 # [1..<h]"
    using assms(2) by (simp add: upt_conv_Cons)
  ultimately show ?thesis
    by (simp add: bitmapWidth_def thresholdBitmap_def)
qed

lemma resize_nonempty:
  assumes "1 \<le> target" and "0 < h"
  shows "resizeBitmap (thresholdBitmap data w h) target \<noteq> []"
  using assms by (auto simp: resizeBitmap_def thresholdBitmap_def)

lemma rasterize_width:
  "1 \<le> target \<Longrightarrow> bitmapWidth (rasterize draw t target) = canvas_width t"
  by (simp add: rasterize_def bitmapWidth_resize canvas_height_def fontSize_def)

lemma rasterize_nonempty: "1 \<le> target \<Longrightarrow> rasterize draw t target \<noteq> []"
  by (simp add: rasterize_def resize_nonempty canvas_height_def fontSize_def)

lemma createTextBitmap_nonempty:
  assumes "banner_text (options s) \<noteq> []"
  shows "createTextBitmap draw s =
           Inr (s\<lparr>textBitmap :=
                    Some (rasterize draw (banner_text (options s)) (panelHeight (options s)))\<rparr>)"
  using canvas_width_pos [OF assms]
  by (simp add: createTextBitmap_def getImageData_def rasterize_def canvas_height_def fontSize_def Let_def)

lemma createTextBitmap_empty:
  assumes "banner_text (options s) = []"
  shows "createTextBitmap draw s = Inl (IndexSizeError, s)"
  using assms by (simp add: createTextBitmap_def getImageData_def canvas_width_empty Let_def)

text \<open>
  Claim C3, amended. For every non-empty text (and a panel height of at least 1)
  \<^verbatim>\<open>createTextBitmap\<close> returns and the bitmap has the width of the canvas,
  \<open>\<lfloor>25.6 * length text\<rfloor>\<close>, which is at least 1. No minimum width is substituted:
  for the empty text the canvas has width 0, \<^verbatim>\<open>getImageData\<close> throws and no bitmap
  is produced, and the loops run on an empty buffer would give rows of width 0.
\<close>

theorem createTextBitmap_width:
  assumes "banner_text (options s) \<noteq> []" and "1 \<le> panelHeight (options s)"
  shows "\<exists>s' bm. createTextBitmap draw s = Inr s' \<and> textBitmap s' = Some bm
           \<and> bitmapWidth bm = canvas_width (banner_text (options s))
           \<and> 1 \<le> bitmapWidth bm"
  using canvas_width_pos [OF assms(1)] assms(2)
  by (simp add: createTextBitmap_nonempty [OF assms(1)] rasterize_width)

theorem createTextBitmap_width_witness:
  "\<exists>s' bm. createTextBitmap blank_canvas demo = Inr s' \<and> textBitmap s' = Some bm
      \<and> bitmapWidth bm = 25 \<and> 1 \<le> bitmapWidth bm"
  using createTextBitmap_width [of demo blank_canvas]
  by (simp add: demo_def demo_options_def canvas_width_div)

theorem createTextBitmap_empty_counterexample:
  "createTextBitmap blank_canvas (demo\<lparr>options := demo_options\<lparr>banner_text := []\<rparr>, textBitmap := None\<rparr>)
     = Inl (IndexSizeError, demo\<lparr>options := demo_options\<lparr>banner_text := []\<rparr>, textBitmap := None\<rparr>)
   \<and> canvas_width [] = 0
   \<and> bitmapWidth (rasterize blank_canvas [] 10) = 0"
proof -
  have "bitmapWidth (rasterize blank_canvas [] 10) = 0"
    by (simp add: rasterize_width canvas_width_empty)
  then show ?thesis
    by (simp add: createTextBitmap_empty demo_def demo_options_def canvas_width_empty)
qed

section \<open>Replacing the text\<close>

lemma isOn_offscreen:
  assumes "x < w"
  shows "isOn bitmap (- real w) y x = Some False"
proof -
  have "\<lfloor>- real w\<rfloor> = - int w"
    by (metis floor_of_int of_int_minus of_int_of_nat_eq)
  then have "int x + \<lfloor>- real w\<rfloor> < 0"
    using assms by simp
  then show ?thesis
    by (simp add: isOn_def Let_def split: option.splits)
qed

lemma grid_ok_setText_state:
  "grid_ok s \<Longrightarrow> grid_ok (s\<lparr>options := (options s)\<lparr>banner_text := t\<rparr>, scrollOffset := c, textBitmap := b\<rparr>)"
  by (simp add: grid_ok_def)

lemma setText_nonempty:
  assumes "t \<noteq> []"
  shows "setText draw t s =
           Inr (s\<lparr>options := (options s)\<lparr>banner_text := t\<rparr>,
                  scrollOffset := - real (panelWidth (options s)),
                  textBitmap := Some (rasterize draw t (panelHeight (options s)))\<rparr>)"
  using assms by (simp add: setText_def createTextBitmap_nonempty)

lemma grid_ok_setText:
  assumes "grid_ok s" and "setText draw t s = Inr s'"
  shows "grid_ok s'"
  using assms
  by (auto simp: setText_def createTextBitmap_def Let_def grid_ok_def split: sum.splits)

text \<open>
  Claim C4. For every non-empty text and every \<open>panelWidth \<ge> 1\<close>, \<^verbatim>\<open>setText\<close>
  returns with the offset \<open>- panelWidth\<close>, and \<^verbatim>\<open>updateLEDs\<close> run right after it
  yields a grid whose every cell is off.
\<close>

theorem setText_then_updateLEDs_all_off:
  assumes "t \<noteq> []" and "1 \<le> panelWidth (options s)" and "grid_ok s"
  shows "\<exists>s1 s2. setText draw t s = Inr s1
           \<and> scrollOffset s1 = - real (panelWidth (options s))
           \<and> updateLEDs s1 = Inr s2
           \<and> ledStates s2 = replicate (panelHeight (options s))
                               (replicate (panelWidth (options s)) (Some False))"
proof -
  let ?s1 = "s\<lparr>options := (options s)\<lparr>banner_text := t\<rparr>,
               scrollOffset := - real (panelWidth (options s)),
               textBitmap := Some (rasterize draw t (panelHeight (options s)))\<rparr>"
  have ok: "grid_ok ?s1"
    using assms(3) by (rule grid_ok_setText_state)
  have row: "map (isOn b (- real w) y) [0..<w] = replicate w (Some False)" for b w y
    by (rule nth_equalityI) (simp_all add: isOn_offscreen)
  have "map (\<lambda>y. replicate w (Some False :: cell)) [0..<h] = replicate h (replicate w (Some False))" for w h
    by (rule nth_equalityI) simp_all
  then show ?thesis
    by (simp add: setText_nonempty [OF assms(1)] updateLEDs_grid [OF ok] row)
qed

theorem setText_then_updateLEDs_all_off_witness:
  "\<exists>s1 s2. setText blank_canvas ''HI'' demo = Inr s1 \<and> scrollOffset s1 = - 4
      \<and> updateLEDs s1 = Inr s2
      \<and> ledStates s2 = replicate 2 (replicate 4 (Some False))"
  using setText_then_updateLEDs_all_off [of "''HI''" demo blank_canvas]
  by (simp add: demo_def demo_options_def grid_ok_def)

text \<open>
  Claim C5, amended. For every state and every non-empty string, \<^verbatim>\<open>setText\<close>
  replaces the bitmap with the rasterization of the new text, sets the scroll offset to
  \<open>- panelWidth\<close> and stores the text; the colour index and every other field are
  unchanged.
\<close>

theorem setText_effect:
  assumes "t \<noteq> []"
  shows "setText draw t s =
           Inr (s\<lparr>options := (options s)\<lparr>banner_text := t\<rparr>,
                  scrollOffset := - real (panelWidth (options s)),
                  textBitmap := Some (rasterize draw t (panelHeight (options s)))\<rparr>)"
  using assms by (rule setText_nonempty)

theorem setText_effect_witness:
  "setText blank_canvas ''HI'' demo =
     Inr (demo\<lparr>options := demo_options\<lparr>banner_text := ''HI''\<rparr>,
              scrollOffset := - 4,
              textBitmap := Some (rasterize blank_canvas ''HI'' 2)\<rparr>)"
  using setText_effect [of "''HI''" blank_canvas demo]
  by (simp add: demo_def demo_options_def)

theorem setText_empty_counterexample:
  "setText blank_canvas [] demo =
     Inl (IndexSizeError, demo\<lparr>options := demo_options\<lparr>banner_text := []\<rparr>, scrollOffset := - 4\<rparr>)
   \<and> textBitmap (demo\<lparr>options := demo_options\<lparr>banner_text := []\<rparr>, scrollOffset := - 4\<rparr>)
       = Some demo_bitmap"
  by (simp add: setText_def createTextBitmap_empty demo_def demo_options_def)

section \<open>Construction\<close>

lemma js_or_falsy: "\<not> truthy nonzero a \<Longrightarrow> js_or nonzero a d = d"
  by (cases a) (simp_all add: js_or_def truthy_def)

lemma js_or_truthy: "truthy nonzero a \<Longrightarrow> Given (js_or nonzero a d) = a"
  by (cases a) (simp_all add: js_or_def truthy_def)

lemma falsy_values:
  "\<not> truthy nonzero a \<longleftrightarrow>
     a \<in> {Absent, Undefined, Null, JFalse, JZero, JNaN, JEmpty} \<or> (\<exists>v. a = Given v \<and> \<not> nonzero v)"
  by (cases a) (simp_all add: truthy_def)

lemma js_or_holds: "P d \<Longrightarrow> (\<And>v. nonzero v \<Longrightarrow> P v) \<Longrightarrow> P (js_or nonzero a d)"
  by (cases a) (simp_all add: js_or_def)

lemma default_text_nonempty: "banner_text (default_options b a) \<noteq> []"
  by (simp add: default_options_def) (rule js_or_holds, simp_all add: truthy_string_def)

lemma default_panelWidth_pos: "1 \<le> panelWidth (default_options b a)"
  by (simp add: default_options_def) (rule js_or_holds, simp_all add: truthy_nat_def)

lemma default_panelHeight_pos: "1 \<le> panelHeight (default_options b a)"
  by (simp add: default_options_def) (rule js_or_holds, simp_all add: truthy_nat_def)

lemma default_scrollSpeed_nonzero: "scrollSpeed (default_options b a) \<noteq> 0"
  by (simp add: default_options_def) (rule js_or_holds, simp_all add: truthy_real_def)

lemma constructor_returns:
  fixes draw pg a
  defines "opts \<equiv> default_options (document_body pg) a"
  shows "\<exists>s. PremiumLEDDisplay draw pg a =
               (pg\<lparr>mounted := mounted pg @ [container opts],
                   resizeListeners := Suc (resizeListeners pg)\<rparr>, Inr s)
           \<and> options s = opts
           \<and> textBitmap s = Some (rasterize draw (banner_text opts) (panelHeight opts))
           \<and> scrollOffset s =
               (if real (canvas_width (banner_text opts)) + real (panelWidth opts) \<le> scrollSpeed opts
                then - real (panelWidth opts) else scrollSpeed opts)
           \<and> grid_ok s"
proof -
  let ?s0 = "\<lparr> options = opts, leds = 0, ledStates = [], textBitmap = None,
               scrollOffset = 0, currentColorIndex = 0 \<rparr>"
  let ?bm = "rasterize draw (banner_text opts) (panelHeight opts)"
  let ?s1 = "\<lparr> options = opts, leds = 0, ledStates = [], textBitmap = Some ?bm,
               scrollOffset = 0, currentColorIndex = 0 \<rparr>"
  have raster: "createTextBitmap draw ?s0 = Inr ?s1"
    using createTextBitmap_nonempty [of ?s0 draw]
    by (simp add: opts_def default_text_nonempty)
  have height: "1 \<le> panelHeight opts"
    unfolding opts_def by (rule default_panelHeight_pos)
  have bm: "?bm \<noteq> []" and width: "bitmapWidth ?bm = canvas_width (banner_text opts)"
    using height by (simp_all add: rasterize_nonempty rasterize_width)
  have "textBitmap (createLEDs ?s1) = Some ?bm"
    by (simp add: createLEDs_def)
  from updateScrollPosition_eq [OF this bm]
  have tick: "scrollOffset (updateScrollPosition (createLEDs ?s1)) =
      (if real (canvas_width (banner_text opts)) + real (panelWidth opts) \<le> scrollSpeed opts
       then - real (panelWidth opts) else scrollSpeed opts)"
    by (simp add: width createLEDs_def)
  obtain s where run: "animate (createLEDs ?s1) = Inr s"
    and frame: "options s = options (createLEDs ?s1)" "textBitmap s = textBitmap (createLEDs ?s1)"
      "scrollOffset s = scrollOffset (updateScrollPosition (createLEDs ?s1))" "grid_ok s"
    using animate_grid [OF grid_ok_createLEDs [of ?s1]] by blast
  have "PremiumLEDDisplay draw pg a =
          (pg\<lparr>mounted := mounted pg @ [container opts],
              resizeListeners := Suc (resizeListeners pg)\<rparr>, Inr s)"
    unfolding PremiumLEDDisplay_def Let_def opts_def [symmetric] raster
    by (simp add: run init_def)
  moreover have "options s = opts" "textBitmap s = Some ?bm"
    using frame(1,2) by (simp_all add: createLEDs_def)
  ultimately show ?thesis
    using frame(3,4) tick by simp
qed

text \<open>
  Claim C9, amended. The constructor runs \<^verbatim>\<open>animate\<close> once itself, so immediately
  after construction the scroll offset is \<open>0 + scrollSpeed\<close> (0.4 by default, whose
  floor is 0) unless that reaches \<open>bitmapWidth + panelWidth\<close>, when it is
  \<open>- panelWidth\<close>; it is never 0.
\<close>

theorem constructed_scrollOffset:
  "\<exists>s. snd (PremiumLEDDisplay draw pg a) = Inr s
      \<and> scrollOffset s =
          (if real (canvas_width (banner_text (options s))) + real (panelWidth (options s))
                \<le> scrollSpeed (options s)
           then - real (panelWidth (options s)) else 0 + scrollSpeed (options s))
      \<and> scrollOffset s \<noteq> 0"
proof -
  obtain s where run: "snd (PremiumLEDDisplay draw pg a) = Inr s"
    and opts: "options s = default_options (document_body pg) a"
    and off: "scrollOffset s =
          (if real (canvas_width (banner_text (options s))) + real (panelWidth (options s))
                \<le> scrollSpeed (options s)
           then - real (panelWidth (options s)) else scrollSpeed (options s))"
    using constructor_returns [of draw pg a] by auto
  have "scrollSpeed (options s) \<noteq> 0" and "1 \<le> panelWidth (options s)"
    unfolding opts by (rule default_scrollSpeed_nonzero, rule default_panelWidth_pos)
  then have "scrollOffset s \<noteq> 0"
    unfolding off by simp
  then show ?thesis
    using run off by simp
qed

theorem constructed_scrollOffset_witness:
  "\<exists>s. snd (PremiumLEDDisplay blank_canvas demo_page no_options) = Inr s
      \<and> scrollOffset s = 4 / 10 \<and> \<lfloor>scrollOffset s\<rfloor> = 0"
proof -
  obtain s where run: "snd (PremiumLEDDisplay blank_canvas demo_page no_options) = Inr s"
    and off: "scrollOffset s =
          (if real (canvas_width (banner_text (options s))) + real (panelWidth (options s))
                \<le> scrollSpeed (options s)
           then - real (panelWidth (options s)) else 0 + scrollSpeed (options s))"
    using constructed_scrollOffset [of blank_canvas demo_page no_options] by auto
  obtain s' where "PremiumLEDDisplay blank_canvas demo_page no_options
                    = (demo_page\<lparr>mounted := mounted demo_page @ [container (default_options (document_body demo_page) no_options)],
                         resizeListeners := Suc (resizeListeners demo_page)\<rparr>, Inr s')"
    and "options s' = default_options (document_body demo_page) no_options"
    using constructor_returns [of blank_canvas demo_page no_options] by auto
  then have "options s = default_options (document_body demo_page) no_options"
    using run by simp
  then have "scrollOffset s = 4 / 10"
    unfolding off by (simp add: default_options_def no_options_def js_or_def)
  moreover have "\<lfloor>4 / 10 :: real\<rfloor> = 0"
    by simp
  ultimately show ?thesis
    using run by (intro exI [of _ s]) (simp only: simp_thms)
qed

theorem constructed_scrollOffset_counterexample:
  "map_option scrollOffset (returned (snd (PremiumLEDDisplay blank_canvas demo_page no_options)))
     = Some (4 / 10)
   \<and> map_option scrollOffset (returned (snd (PremiumLEDDisplay blank_canvas demo_page no_options)))
     \<noteq> Some 0"
proof -
  obtain s where run: "PremiumLEDDisplay blank_canvas demo_page no_options
                    = (demo_page\<lparr>mounted := mounted demo_page @ [container (default_options (document_body demo_page) no_options)],
                         resizeListeners := Suc (resizeListeners demo_page)\<rparr>, Inr s)"
    and off: "scrollOffset s =
               (if real (canvas_width (banner_text (default_options (document_body demo_page) no_options)))
                     + real (panelWidth (default_options (document_body demo_page) no_options))
                     \<le> scrollSpeed (default_options (document_body demo_page) no_options)
                then - real (panelWidth (default_options (document_body demo_page) no_options))
                else scrollSpeed (default_options (document_body demo_page) no_options))"
    using constructor_returns [of blank_canvas demo_page no_options] by auto
  have "scrollOffset s = 4 / 10"
    unfolding off by (simp add: default_options_def no_options_def js_or_def)
  then show ?thesis
    by (simp add: run returned_def)
qed

text \<open>
  Claim C10. For every options object, the constructor returns an object in which each
  recognized option whose supplied value is falsy (absent, \<^verbatim>\<open>undefined\<close>,
  \<^verbatim>\<open>null\<close>, \<^verbatim>\<open>false\<close>, 0, \<^verbatim>\<open>NaN\<close> or the empty string; these are
  the values of \<open>falsy_values\<close>) has its default: text
  \<^verbatim>\<open>WELCOME TO MY WEBSITE\<close>, panelWidth 80, panelHeight 10, ledSize 0.85, spacing
  1.2, offColor 0x100000, scrollSpeed 0.4.
\<close>

theorem constructor_defaults:
  "\<exists>s. snd (PremiumLEDDisplay draw pg a) = Inr s
      \<and> (\<not> truthy truthy_string (arg_text a)
            \<longrightarrow> banner_text (options s) = ''WELCOME TO MY WEBSITE'')
      \<and> (\<not> truthy truthy_nat (arg_panelWidth a)
            \<longrightarrow> panelWidth (options s) = 80)
      \<and> (\<not> truthy truthy_nat (arg_panelHeight a)
            \<longrightarrow> panelHeight (options s) = 10)
      \<and> (\<not> truthy truthy_real (arg_ledSize a)
            \<longrightarrow> ledSize (options s) = 85 / 100)
      \<and> (\<not> truthy truthy_real (arg_spacing a)
            \<longrightarrow> spacing (options s) = 12 / 10)
      \<and> (\<not> truthy truthy_nat (arg_offColor a)
            \<longrightarrow> offColor (options s) = 0x100000)
      \<and> (\<not> truthy truthy_real (arg_scrollSpeed a)
            \<longrightarrow> scrollSpeed (options s) = 4 / 10)"
proof -
  obtain s where run: "snd (PremiumLEDDisplay draw pg a) = Inr s"
    and opts: "options s = default_options (document_body pg) a"
    using constructor_returns [of draw pg a] by auto
  have "\<not> truthy truthy_string (arg_text a)
          \<longrightarrow> banner_text (options s) = ''WELCOME TO MY WEBSITE''"
    unfolding opts by (simp add: default_options_def js_or_falsy)
  moreover have "\<not> truthy truthy_nat (arg_panelWidth a)
          \<longrightarrow> panelWidth (options s) = 80"
    unfolding opts by (simp add: default_options_def js_or_falsy)
  moreover have "\<not> truthy truthy_nat (arg_panelHeight a)
          \<longrightarrow> panelHeight (options s) = 10"
    unfolding opts by (simp add: default_options_def js_or_falsy)
  moreover have "\<not> truthy truthy_real (arg_ledSize a)
          \<longrightarrow> ledSize (options s) = 85 / 100"
    unfolding opts by (simp add: default_options_def js_or_falsy)
  moreover have "\<not> truthy truthy_real (arg_spacing a)
          \<longrightarrow> spacing (options s) = 12 / 10"
    unfolding opts by (simp add: default_options_def js_or_falsy)
  moreover have "\<not> truthy truthy_nat (arg_offColor a)
          \<longrightarrow> offColor (options s) = 0x100000"
    unfolding opts by (simp add: default_options_def js_or_falsy)
  moreover have "\<not> truthy truthy_real (arg_scrollSpeed a)
          \<longrightarrow> scrollSpeed (options s) = 4 / 10"
    unfolding opts by (simp add: default_options_def js_or_falsy)
  ultimately show ?thesis
    using run by blast
qed

theorem constructor_defaults_witness:
  "\<exists>s. snd (PremiumLEDDisplay blank_canvas demo_page
              (no_options\<lparr>arg_panelWidth := Given 0, arg_scrollSpeed := Given 0\<rparr>)) = Inr s
      \<and> panelWidth (options s) = 80 \<and> scrollSpeed (options s) = 4 / 10
      \<and> banner_text (options s) = ''WELCOME TO MY WEBSITE''
      \<and> offColor (options s) = 0x100000"
  using constructor_defaults [of blank_canvas demo_page
          "no_options\<lparr>arg_panelWidth := Given 0, arg_scrollSpeed := Given 0\<rparr>"]
  by (auto simp: no_options_def truthy_def truthy_nat_def truthy_real_def)

section \<open>The public factory\<close>

text \<open>
  Claim C8. When no element has the given id, \<^verbatim>\<open>initLEDBanner\<close> returns
  \<^verbatim>\<open>null\<close> and the page differs only by the logged error: no canvas is mounted and
  no listener added. When the element exists, it returns the object that the constructor
  returns.
\<close>

theorem initLEDBanner_container:
  "(elements pg containerId = None \<longrightarrow>
      initLEDBanner draw pg containerId a
        = (pg\<lparr>console := console pg @ [''Container not found'']\<rparr>, Inr None))
   \<and> (\<forall>el. elements pg containerId = Some el \<longrightarrow>
        (\<exists>pg' s. initLEDBanner draw pg containerId a = (pg', Inr (Some s))
           \<and> PremiumLEDDisplay draw pg (spread_container el a) = (pg', Inr s)
           \<and> console pg' = console pg))"
proof (intro conjI allI impI)
  assume "elements pg containerId = None"
  then show "initLEDBanner draw pg containerId a
        = (pg\<lparr>console := console pg @ [''Container not found'']\<rparr>, Inr None)"
    by (simp add: initLEDBanner_def)
next
  fix el
  assume found: "elements pg containerId = Some el"
  obtain pg' s where new: "PremiumLEDDisplay draw pg (spread_container el a) = (pg', Inr s)"
    and con: "console pg' = console pg"
    using constructor_returns [of draw pg "spread_container el a"] by auto
  show "\<exists>pg' s. initLEDBanner draw pg containerId a = (pg', Inr (Some s))
           \<and> PremiumLEDDisplay draw pg (spread_container el a) = (pg', Inr s)
           \<and> console pg' = console pg"
    using new con by (simp add: initLEDBanner_def found)
qed

theorem initLEDBanner_container_witness:
  "initLEDBanner blank_canvas demo_page ''nowhere'' no_options
     = (demo_page\<lparr>console := [''Container not found'']\<rparr>, Inr None)
   \<and> (\<exists>pg' s. initLEDBanner blank_canvas demo_page ''banner'' no_options = (pg', Inr (Some s))
         \<and> console pg' = [])"
  using initLEDBanner_container [of demo_page "''nowhere''" blank_canvas no_options]
        initLEDBanner_container [of demo_page "''banner''" blank_canvas no_options]
  by (auto simp: demo_page_def)

end
